theory Spec2Isabelle
  imports Main "HOL-Library.Word" "HOL-Library.Multiset"
begin

unbundle bit_operations_syntax

section \<open>Machine data of predictor.cc\<close>

text \<open>
  A C \<open>float\<close> is carried as its IEEE-754 binary32 bit pattern. The predictor never does
  arithmetic on floats: it copies them, tests them for NaN and compares them with \<open>!=\<close>.
\<close>

type_synonym float = "32 word"

text \<open>
  Modelled from the spec: \<open>treelite::common::math::CheckNAN\<close> (common/math.h) is not part of
  the file; it is the NaN test of the value: all exponent bits set and a non-zero fraction.
\<close>

definition CheckNAN :: "float \<Rightarrow> bool" where
  "CheckNAN x = (x AND 0x7F800000 = 0x7F800000 \<and> x AND 0x007FFFFF \<noteq> 0)"

text \<open>
  The C++ operator \<open>!=\<close> on two floats: true as soon as one side is NaN; the two zeros
  (\<open>0x00000000\<close> and \<open>0x80000000\<close>) compare equal; otherwise the bit patterns decide.
\<close>

definition float_ne :: "float \<Rightarrow> float \<Rightarrow> bool" where
  "float_ne a b =
     (CheckNAN a \<or> CheckNAN b \<or>
      (a \<noteq> b \<and> \<not> (a AND 0x7FFFFFFF = 0 \<and> b AND 0x7FFFFFFF = 0)))"

text \<open>
  \<open>size_t\<close> is 64 bits wide (the first disjunct of the row-count CHECK,
  \<open>sizeof(size_t) < sizeof(int64_t)\<close>, is then false). Sizes and indices are naturals and
  every \<open>size_t\<close> operation of the source is reduced modulo \<open>2 ^ 64\<close>.
\<close>

definition size_wrap :: "nat \<Rightarrow> nat" where
  "size_wrap n = n mod 2 ^ 64"

definition size_of_int :: "int \<Rightarrow> nat" where
  \<comment> \<open>the conversion of a signed \<open>int\<close> to \<open>size_t\<close>\<close>
  "size_of_int i = nat (i mod 2 ^ 64)"

definition int64_max :: nat where
  "int64_max = 2 ^ 63 - 1"

definition int64_of_size :: "nat \<Rightarrow> int" where
  \<comment> \<open>\<open>static_cast<int64_t>\<close> of a \<open>size_t\<close>: the same 64 bits read as two's complement\<close>
  "int64_of_size n = sint (word_of_nat n :: 64 word)"

text \<open>
  Modelled from the spec: the declaration of \<open>Predictor::Entry\<close> (treelite/predictor.h) is not
  part of the file. It has two members, a signed 32-bit discriminator \<open>missing\<close> and a float
  \<open>fvalue\<close>. The source initialises an entry with the single value \<open>{-1}\<close>, makes it present
  by assigning \<open>fvalue\<close> alone and missing by assigning \<open>missing = -1\<close> alone, so the two
  members share one 32-bit slot and an assignment to either member replaces the slot. The
  only marker the source ever stores is \<open>-1\<close>, all 32 bits set: an entry is missing when its
  slot, read as the discriminator, is that marker. The same 32 bits read as a float are a
  NaN. The spec calls a negative discriminator missing; the marker is missing under that
  reading too, which would also make every float with the sign bit set missing.
\<close>

datatype Entry = Entry (slot: "32 word")

definition missing :: "int \<Rightarrow> Entry" where
  \<comment> \<open>the entry after the assignment \<open>.missing = m\<close>\<close>
  "missing m = Entry (word_of_int m)"

definition fvalue :: "float \<Rightarrow> Entry" where
  \<comment> \<open>the entry after the assignment \<open>.fvalue = v\<close>\<close>
  "fvalue v = Entry v"

definition get_missing :: "Entry \<Rightarrow> int" where
  \<comment> \<open>the member \<open>missing\<close> read from the slot: the 32 bits as two's complement\<close>
  "get_missing e = sint (slot e)"

definition get_fvalue :: "Entry \<Rightarrow> float" where
  \<comment> \<open>the member \<open>fvalue\<close> read from the slot\<close>
  "get_fvalue e = slot e"

definition is_missing :: "Entry \<Rightarrow> bool" where
  "is_missing e = (get_missing e = - 1)"

record CSRBatch =
  data :: "float list"
  col_ind :: "nat list"
  row_ptr :: "nat list"
  num_row :: nat
  num_col :: nat

record DenseBatch =
  data :: "float list"
  missing_value :: float
  num_row :: nat
  num_col :: nat

text \<open>
  \<open>out_pred\<close> is a bare pointer: the memory it addresses, read and written by index.
\<close>

type_synonym outbuf = "nat \<Rightarrow> float"

datatype error =
    NotLoaded              \<comment> \<open>CHECK(pred_func_handle != nullptr)\<close>
  | NumRowTooLarge         \<comment> \<open>CHECK(... num_row <= max int64_t)\<close>
  | NaNInMatrix            \<comment> \<open>CHECK(nan_missing)\<close>
  | ReshapeGroups          \<comment> \<open>CHECK_GT(num_output_group, 1)\<close>
  | ReshapeNotMultiple     \<comment> \<open>CHECK_EQ(query_result_size % num_row, 0)\<close>
  | ReshapeZeroWidth       \<comment> \<open>CHECK_GT(query_size_per_instance, 0)\<close>
  | ReshapeWidthTooLarge   \<comment> \<open>CHECK_LT(query_size_per_instance, num_output_group)\<close>
  | DivisionByZero         \<comment> \<open>the trap of \<open>%\<close> by a zero num_row\<close>
  | OpenFailed | NoQueryFunc | ZeroGroups | NoPredictMulticlass | NoPredict

text \<open>
  A failed CHECK leaves the caller's output memory as it was at that moment, so a failure
  carries the buffer; a success carries the buffer and the returned size.
\<close>

type_synonym result = "(error \<times> outbuf) + (outbuf \<times> nat)"

text \<open>
  The callable handed to \<open>PredLoop\<close>: row id, the thread's slice of entries, the output
  memory; it returns the memory after its writes and the size it reports.
\<close>

type_synonym PredFunc = "nat \<Rightarrow> Entry list \<Rightarrow> outbuf \<Rightarrow> outbuf \<times> nat"

text \<open>
  The scratch vector, the output memory and the running \<open>total_output_size\<close>.
\<close>

type_synonym loop_state = "Entry list \<times> outbuf \<times> nat"

text \<open>
  The OpenMP runtime: for a team size and an iteration count, the sequence of
  (thread id, row id) pairs in the order the iterations take effect. Each thread works on
  its own slice and each row on its own output, so a row iteration is one step here; the
  loop is also given step by step below, with the steps of the threads interleaved. The loop
  runs \<open>rid\<close> from 0 up to the signed \<open>num_row\<close>, so a negative bound gives no iteration.
\<close>

type_synonym omp_runtime = "int \<Rightarrow> nat \<Rightarrow> (nat \<times> nat) list"

definition valid_schedule :: "int \<Rightarrow> nat \<Rightarrow> (nat \<times> nat) list \<Rightarrow> bool" where
  "valid_schedule nthread n sched =
     (mset (map snd sched) = mset [0..<n] \<and> list_all (\<lambda>p. int (fst p) < nthread) sched)"

text \<open>One way to schedule statically: contiguous chunks of equal size, thread by thread.\<close>

definition omp_static :: omp_runtime where
  "omp_static nthread n =
     (let t = nat nthread; chunk = (n + t - 1) div t
      in map (\<lambda>rid. (rid div chunk, rid)) [0..<n])"

section \<open>PredLoop\<close>

subsection \<open>CSR batches\<close>

definition csr_fill :: "CSRBatch \<Rightarrow> nat \<Rightarrow> nat \<Rightarrow> nat \<Rightarrow> Entry list \<Rightarrow> Entry list" where
  \<comment> \<open>\<open>for (i = ibegin; i < iend; ++i) inst[off + col_ind[i]].fvalue = data[i];\<close>\<close>
  "csr_fill batch off ibegin iend inst =
     fold (\<lambda>i v. v[size_wrap (off + CSRBatch.col_ind batch ! i) := fvalue (CSRBatch.data batch ! i)])
       [ibegin..<iend] inst"

definition csr_clear :: "CSRBatch \<Rightarrow> nat \<Rightarrow> nat \<Rightarrow> nat \<Rightarrow> Entry list \<Rightarrow> Entry list" where
  \<comment> \<open>\<open>for (i = ibegin; i < iend; ++i) inst[off + col_ind[i]].missing = -1;\<close>\<close>
  "csr_clear batch off ibegin iend inst =
     fold (\<lambda>i v. v[size_wrap (off + CSRBatch.col_ind batch ! i) := missing (- 1)])
       [ibegin..<iend] inst"

definition csr_row :: "CSRBatch \<Rightarrow> PredFunc \<Rightarrow> nat \<times> nat \<Rightarrow> loop_state \<Rightarrow> loop_state" where
  "csr_row batch func p s =
     (case (p, s) of ((tid, rid), (inst, out, total_output_size)) \<Rightarrow>
        let off = size_wrap (CSRBatch.num_col batch * tid);
            ibegin = CSRBatch.row_ptr batch ! rid;
            iend = CSRBatch.row_ptr batch ! (rid + 1);
            inst1 = csr_fill batch off ibegin iend inst;
            r = func rid (take (CSRBatch.num_col batch) (drop off inst1)) out;
            inst2 = csr_clear batch off ibegin iend inst1
        in (inst2, fst r, size_wrap (total_output_size + snd r)))"

definition PredLoop_CSR ::
  "omp_runtime \<Rightarrow> CSRBatch \<Rightarrow> int \<Rightarrow> outbuf \<Rightarrow> PredFunc \<Rightarrow> result" where
  "PredLoop_CSR omp batch nthread out_pred func =
     (let inst = replicate (size_wrap (size_of_int nthread * CSRBatch.num_col batch)) (missing (- 1))
      in if \<not> CSRBatch.num_row batch \<le> int64_max then Inl (NumRowTooLarge, out_pred)
         else case fold (csr_row batch func)
                     (omp nthread (nat (int64_of_size (CSRBatch.num_row batch))))
                     (inst, out_pred, 0) of
                (inst', out', total_output_size) \<Rightarrow> Inr (out', total_output_size))"

subsection \<open>Dense batches\<close>

fun dense_fill ::
  "bool \<Rightarrow> float \<Rightarrow> float list \<Rightarrow> nat \<Rightarrow> nat \<Rightarrow> nat list \<Rightarrow> Entry list \<Rightarrow> error + Entry list" where
  "dense_fill nan_missing mv dat base off [] inst = Inr inst"
| "dense_fill nan_missing mv dat base off (j # js) inst =
     (if CheckNAN (dat ! (base + j)) then
        (if nan_missing then dense_fill nan_missing mv dat base off js inst
         else Inl NaNInMatrix)
      else if nan_missing \<or> float_ne (dat ! (base + j)) mv then
        dense_fill nan_missing mv dat base off js
          (inst[size_wrap (off + j) := fvalue (dat ! (base + j))])
      else dense_fill nan_missing mv dat base off js inst)"

definition dense_clear :: "nat \<Rightarrow> nat \<Rightarrow> Entry list \<Rightarrow> Entry list" where
  \<comment> \<open>\<open>for (j = 0; j < num_col; ++j) inst[off + j].missing = -1;\<close>\<close>
  "dense_clear off ncol inst =
     fold (\<lambda>j v. v[size_wrap (off + j) := missing (- 1)]) [0..<ncol] inst"

definition dense_row ::
  "DenseBatch \<Rightarrow> PredFunc \<Rightarrow> nat \<times> nat \<Rightarrow> loop_state \<Rightarrow> error + loop_state" where
  "dense_row batch func p s =
     (case (p, s) of ((tid, rid), (inst, out, total_output_size)) \<Rightarrow>
        let off = size_wrap (num_col batch * tid);
            base = size_wrap (rid * num_col batch)
        in case dense_fill (CheckNAN (missing_value batch)) (missing_value batch)
                  (data batch) base off [0..<num_col batch] inst of
             Inl e \<Rightarrow> Inl e
           | Inr inst1 \<Rightarrow>
               let r = func rid (take (num_col batch) (drop off inst1)) out;
                   inst2 = dense_clear off (num_col batch) inst1
               in Inr (inst2, fst r, size_wrap (total_output_size + snd r)))"

fun dense_loop ::
  "DenseBatch \<Rightarrow> PredFunc \<Rightarrow> (nat \<times> nat) list \<Rightarrow> loop_state \<Rightarrow> (error \<times> outbuf) + loop_state" where
  "dense_loop batch func [] s = Inr s"
| "dense_loop batch func (p # ps) s =
     (case dense_row batch func p s of
        Inl e \<Rightarrow> Inl (e, fst (snd s))
      | Inr s' \<Rightarrow> dense_loop batch func ps s')"

definition PredLoop_Dense ::
  "omp_runtime \<Rightarrow> DenseBatch \<Rightarrow> int \<Rightarrow> outbuf \<Rightarrow> PredFunc \<Rightarrow> result" where
  "PredLoop_Dense omp batch nthread out_pred func =
     (let inst = replicate (size_wrap (size_of_int nthread * num_col batch)) (missing (- 1))
      in if \<not> num_row batch \<le> int64_max then Inl (NumRowTooLarge, out_pred)
         else case dense_loop batch func (omp nthread (nat (int64_of_size (num_row batch))))
                     (inst, out_pred, 0) of
                Inl e \<Rightarrow> Inl e
              | Inr (inst', out', total_output_size) \<Rightarrow> Inr (out', total_output_size))"

section \<open>The parallel loop, step by step\<close>












section \<open>PredictBatch_\<close>

text \<open>
  What a function pointer denotes when it is cast to one of the three signatures of the
  computation unit and called. \<open>predict_multiclass\<close> yields the floats it stores from the start
  of the output pointer it is given, and the count it returns.
\<close>

record CodeSpace =
  call_query :: "nat \<Rightarrow> nat"
  call_predict :: "nat \<Rightarrow> Entry list \<Rightarrow> int \<Rightarrow> float"
  call_predict_multiclass :: "nat \<Rightarrow> Entry list \<Rightarrow> int \<Rightarrow> float list \<times> nat"

definition store_floats :: "outbuf \<Rightarrow> nat \<Rightarrow> float list \<Rightarrow> outbuf" where
  "store_floats out base ws = fold (\<lambda>j m. m(base + j := ws ! j)) [0..<length ws] out"

definition effective_nthread :: "int \<Rightarrow> int \<Rightarrow> int" where
  \<comment> \<open>\<open>nthread = (nthread == 0) ? max_thread : std::min(nthread, max_thread);\<close>\<close>
  "effective_nthread nthread max_thread =
     (if nthread = 0 then max_thread else min nthread max_thread)"

definition multiclass_func :: "CodeSpace \<Rightarrow> nat \<Rightarrow> bool \<Rightarrow> nat \<Rightarrow> PredFunc" where
  "multiclass_func code h pred_margin num_output_group =
     (\<lambda>rid inst out.
        let r = call_predict_multiclass code h inst (if pred_margin then 1 else 0)
        in (store_floats out (size_wrap (rid * num_output_group)) (fst r), snd r))"

definition scalar_func :: "CodeSpace \<Rightarrow> nat \<Rightarrow> bool \<Rightarrow> PredFunc" where
  "scalar_func code h pred_margin =
     (\<lambda>rid inst out. (out(rid := call_predict code h inst (if pred_margin then 1 else 0)), 1))"

definition reshape_row :: "nat \<Rightarrow> nat \<Rightarrow> nat \<Rightarrow> outbuf \<Rightarrow> outbuf" where
  "reshape_row num_output_group q rid out =
     fold (\<lambda>k m. m(size_wrap (rid * q + k) := m (size_wrap (rid * num_output_group + k))))
       [0..<q] out"

definition reshape :: "nat \<Rightarrow> nat \<Rightarrow> nat \<Rightarrow> outbuf \<Rightarrow> outbuf" where
  "reshape n num_output_group q out = fold (reshape_row num_output_group q) [0..<n] out"

text \<open>
  \<open>PredictBatch_\<close> (here \<open>PredictBatch_impl\<close>) is a template over the batch type: it uses the batch through the
  \<open>PredLoop\<close> overload and through \<open>batch->num_row\<close>, which are its first two arguments here.
  \<open>max_thread\<close> is the value of \<open>omp_get_max_threads()\<close>. The handle is an address, 0 for
  \<open>nullptr\<close>. \<open>verbose\<close> only controls logging.
\<close>

definition PredictBatch_impl ::
  "(int \<Rightarrow> outbuf \<Rightarrow> PredFunc \<Rightarrow> result) \<Rightarrow> nat \<Rightarrow> int \<Rightarrow> CodeSpace \<Rightarrow>
   int \<Rightarrow> int \<Rightarrow> bool \<Rightarrow> nat \<Rightarrow> nat \<Rightarrow> nat \<Rightarrow> outbuf \<Rightarrow> result" where
  "PredictBatch_impl PredLoop batch_num_row max_thread code
       nthread verbose pred_margin num_output_group pred_func_handle
       expected_query_result_size out_pred =
     (if pred_func_handle = 0 then Inl (NotLoaded, out_pred)
      else
        case (if num_output_group > 1
              then PredLoop (effective_nthread nthread max_thread) out_pred
                     (multiclass_func code pred_func_handle pred_margin num_output_group)
              else PredLoop (effective_nthread nthread max_thread) out_pred
                     (scalar_func code pred_func_handle pred_margin)) of
          Inl e \<Rightarrow> Inl e
        | Inr (out1, query_result_size) \<Rightarrow>
            if query_result_size < expected_query_result_size then
              if \<not> num_output_group > 1 then Inl (ReshapeGroups, out1)
              else if batch_num_row = 0 then Inl (DivisionByZero, out1)
              else if query_result_size mod batch_num_row \<noteq> 0 then Inl (ReshapeNotMultiple, out1)
              else if \<not> query_result_size div batch_num_row > 0 then Inl (ReshapeZeroWidth, out1)
              else if \<not> query_result_size div batch_num_row < num_output_group
                then Inl (ReshapeWidthTooLarge, out1)
              else Inr (reshape batch_num_row num_output_group
                          (query_result_size div batch_num_row) out1, query_result_size)
            else Inr (out1, query_result_size))"

section \<open>The Predictor object\<close>

text \<open>
  The dynamic linker behind \<open>OpenLibrary\<close>, \<open>LoadFunction\<close> and \<open>CloseLibrary\<close>
  (\<open>dlopen\<close>, \<open>dlsym\<close>, \<open>dlclose\<close>): handles and function pointers are addresses, 0 for
  a null pointer. The process keeps the list of images it has open, one entry per
  successful \<open>dlopen\<close>.
\<close>

record DynamicLinker =
  dlopen :: "string \<Rightarrow> nat"
  dlsym :: "nat \<Rightarrow> string \<Rightarrow> nat"

definition OpenLibrary :: "DynamicLinker \<Rightarrow> string \<Rightarrow> nat list \<Rightarrow> nat \<times> nat list" where
  "OpenLibrary dl name images =
     (let handle = dlopen dl name
      in (handle, if handle = 0 then images else handle # images))"

definition CloseLibrary :: "nat \<Rightarrow> nat list \<Rightarrow> nat list" where
  "CloseLibrary handle images = remove1 handle images"

definition LoadFunction :: "DynamicLinker \<Rightarrow> nat \<Rightarrow> string \<Rightarrow> nat" where
  "LoadFunction dl lib_handle name = dlsym dl lib_handle name"

record Predictor =
  lib_handle :: nat
  query_func_handle :: nat
  pred_func_handle :: nat
  num_output_group :: nat

text \<open>
  The constructor sets the three handles to null and leaves \<open>num_output_group_\<close> as it
  finds it.
\<close>

definition Predictor_new :: "nat \<Rightarrow> Predictor" where
  "Predictor_new uninitialised =
     \<lparr> lib_handle = 0, query_func_handle = 0, pred_func_handle = 0,
       num_output_group = uninitialised \<rparr>"

type_synonym process = "Predictor \<times> nat list"

text \<open>
  A failed CHECK in \<open>Load\<close> throws after the assignments made so far, so a failure carries
  the state it leaves behind.
\<close>

definition Load ::
  "DynamicLinker \<Rightarrow> CodeSpace \<Rightarrow> string \<Rightarrow> process \<Rightarrow> (error \<times> process) + process" where
  "Load dl code name s =
     (case s of (p, images) \<Rightarrow>
      let opened = OpenLibrary dl name images;
          p1 = p\<lparr>lib_handle := fst opened\<rparr>
      in if lib_handle p1 = 0 then Inl (OpenFailed, (p1, snd opened))
         else
           let p2 = p1\<lparr>query_func_handle :=
                        LoadFunction dl (lib_handle p1) ''get_num_output_group''\<rparr>
           in if query_func_handle p2 = 0 then Inl (NoQueryFunc, (p2, snd opened))
              else
                let p3 = p2\<lparr>num_output_group := call_query code (query_func_handle p2)\<rparr>
                in if \<not> num_output_group p3 > 0 then Inl (ZeroGroups, (p3, snd opened))
                   else if num_output_group p3 > 1 then
                     (let p4 = p3\<lparr>pred_func_handle :=
                                   LoadFunction dl (lib_handle p3) ''predict_multiclass''\<rparr>
                      in if pred_func_handle p4 = 0
                         then Inl (NoPredictMulticlass, (p4, snd opened))
                         else Inr (p4, snd opened))
                   else
                     (let p4 = p3\<lparr>pred_func_handle :=
                                   LoadFunction dl (lib_handle p3) ''predict''\<rparr>
                      in if pred_func_handle p4 = 0
                         then Inl (NoPredict, (p4, snd opened))
                         else Inr (p4, snd opened)))"

definition Free :: "process \<Rightarrow> process" where
  \<comment> \<open>\<open>CloseLibrary(lib_handle_);\<close> and nothing else\<close>
  "Free s = (case s of (p, images) \<Rightarrow> (p, CloseLibrary (lib_handle p) images))"

text \<open>
  Modelled from the spec: \<open>QueryResultSize\<close> (treelite/predictor.h) is not part of the file;
  it gives the full unreshaped capacity \<open>num_row * max(1, num_output_group)\<close>.
\<close>

definition QueryResultSize :: "Predictor \<Rightarrow> nat \<Rightarrow> nat" where
  "QueryResultSize p batch_num_row = size_wrap (batch_num_row * max 1 (num_output_group p))"

definition PredictBatch_CSR ::
  "omp_runtime \<Rightarrow> int \<Rightarrow> CodeSpace \<Rightarrow> Predictor \<Rightarrow> CSRBatch \<Rightarrow> int \<Rightarrow> int \<Rightarrow> bool \<Rightarrow> outbuf
   \<Rightarrow> result" where
  "PredictBatch_CSR omp max_thread code p batch nthread verbose pred_margin out_result =
     PredictBatch_impl (PredLoop_CSR omp batch) (CSRBatch.num_row batch) max_thread code
       nthread verbose pred_margin (num_output_group p) (pred_func_handle p)
       (QueryResultSize p (CSRBatch.num_row batch)) out_result"

definition PredictBatch_Dense ::
  "omp_runtime \<Rightarrow> int \<Rightarrow> CodeSpace \<Rightarrow> Predictor \<Rightarrow> DenseBatch \<Rightarrow> int \<Rightarrow> int \<Rightarrow> bool \<Rightarrow> outbuf
   \<Rightarrow> result" where
  "PredictBatch_Dense omp max_thread code p batch nthread verbose pred_margin out_result =
     PredictBatch_impl (PredLoop_Dense omp batch) (num_row batch) max_thread code
       nthread verbose pred_margin (num_output_group p) (pred_func_handle p)
       (QueryResultSize p (num_row batch)) out_result"

text \<open>
  A history of the object between its construction and a prediction call: the calls of
  \<open>Load\<close> and \<open>Free\<close> made on it, and whether none of the loads succeeded.
\<close>

datatype call = CallLoad string | CallFree

fun exec :: "DynamicLinker \<Rightarrow> CodeSpace \<Rightarrow> call \<Rightarrow> process \<Rightarrow> process" where
  "exec dl code (CallLoad name) s =
     (case Load dl code name s of Inl (e, s') \<Rightarrow> s' | Inr s' \<Rightarrow> s')"
| "exec dl code CallFree s = Free s"

fun no_load_succeeds :: "DynamicLinker \<Rightarrow> CodeSpace \<Rightarrow> call list \<Rightarrow> process \<Rightarrow> bool" where
  "no_load_succeeds dl code [] s = True"
| "no_load_succeeds dl code (c # cs) s =
     ((case c of CallLoad name \<Rightarrow> isl (Load dl code name s) | CallFree \<Rightarrow> True)
      \<and> no_load_succeeds dl code cs (exec dl code c s))"

section \<open>Well-formed batches and fresh entries\<close>

text \<open>
  The source reads the arrays of a batch by index, without a bounds check. A CSR row is
  well formed when its two row pointers exist, its index range lies inside \<open>col_ind\<close> and
  \<open>data\<close>, and the column indices it lists are valid feature indices; a dense batch when
  \<open>data\<close> holds \<open>num_row * num_col\<close> floats.
\<close>

definition csr_row_wf :: "CSRBatch \<Rightarrow> nat \<Rightarrow> bool" where
  "csr_row_wf batch rid =
     (rid + 1 < length (CSRBatch.row_ptr batch)
      \<and> CSRBatch.row_ptr batch ! (rid + 1) \<le> length (CSRBatch.col_ind batch)
      \<and> CSRBatch.row_ptr batch ! (rid + 1) \<le> length (CSRBatch.data batch)
      \<and> list_all (\<lambda>i. CSRBatch.col_ind batch ! i < CSRBatch.num_col batch)
            [CSRBatch.row_ptr batch ! rid..<CSRBatch.row_ptr batch ! (rid + 1)])"

definition csr_wf :: "CSRBatch \<Rightarrow> bool" where
  "csr_wf batch = list_all (csr_row_wf batch) [0..<CSRBatch.num_row batch]"

definition dense_wf :: "DenseBatch \<Rightarrow> bool" where
  "dense_wf batch = (length (data batch) = num_row batch * num_col batch)"

text \<open>The entries of a row filled into a slice on which every slot is missing.\<close>

definition csr_entries :: "CSRBatch \<Rightarrow> nat \<Rightarrow> Entry list" where
  "csr_entries batch rid =
     csr_fill batch 0 (CSRBatch.row_ptr batch ! rid) (CSRBatch.row_ptr batch ! (rid + 1))
       (replicate (CSRBatch.num_col batch) (missing (- 1)))"

text \<open>The same for a dense row; the fill fails on a NaN under a sentinel that is not NaN.\<close>

definition dense_entries :: "DenseBatch \<Rightarrow> nat \<Rightarrow> error + Entry list" where
  "dense_entries batch rid =
     dense_fill (CheckNAN (missing_value batch)) (missing_value batch) (data batch)
       (size_wrap (rid * num_col batch)) 0 [0..<num_col batch]
       (replicate (num_col batch) (missing (- 1)))"

definition dense_present :: "bool \<Rightarrow> float \<Rightarrow> float list \<Rightarrow> nat \<Rightarrow> nat \<Rightarrow> bool" where
  \<comment> \<open>the condition under which the dense fill assigns \<open>fvalue\<close> at column \<open>j\<close>\<close>
  "dense_present nm mv dat base j =
     (\<not> CheckNAN (dat ! (base + j)) \<and> (nm \<or> float_ne (dat ! (base + j)) mv))"

text \<open>
  One row's call on given entries: the output memory after the call and the total after the
  reduction has added the reported size.
\<close>

definition row_result :: "PredFunc \<Rightarrow> Entry list \<Rightarrow> nat \<Rightarrow> outbuf \<times> nat \<Rightarrow> outbuf \<times> nat" where
  "row_result func es rid s =
     (fst (func rid es (fst s)), size_wrap (snd s + snd (func rid es (fst s))))"

text \<open>The dense loop on fresh entries, row by row, without the scratch vector.\<close>

fun dense_rows ::
  "DenseBatch \<Rightarrow> PredFunc \<Rightarrow> nat list \<Rightarrow> outbuf \<times> nat \<Rightarrow> (error \<times> outbuf) + (outbuf \<times> nat)" where
  "dense_rows batch func [] s = Inr s"
| "dense_rows batch func (rid # rs) s =
     (case dense_entries batch rid of
        Inl e \<Rightarrow> Inl (e, fst s)
      | Inr es \<Rightarrow> dense_rows batch func rs (row_result func es rid s))"


section \<open>Concrete inputs\<close>

text \<open>The first \<open>n\<close> floats of the output memory, with the error or the returned size.\<close>

definition observe :: "nat \<Rightarrow> result \<Rightarrow> (error \<times> float list) + (float list \<times> nat)" where
  "observe n r =
     (case r of Inl (e, out) \<Rightarrow> Inl (e, map out [0..<n])
              | Inr (out, k) \<Rightarrow> Inr (map out [0..<n], k))"

text \<open>
  A CSR batch of two rows and two columns (1.0 at row 0, column 0; 2.0 at row 1, column 1),
  and a unit declaring four groups whose multiclass entry point stores four floats and
  reports five.
\<close>

definition csr1 :: CSRBatch where
  "csr1 = \<lparr> CSRBatch.data = [0x3F800000, 0x40000000], col_ind = [0, 1], row_ptr = [0, 1, 2],
            num_row = 2, num_col = 2 \<rparr>"

definition code1 :: CodeSpace where
  "code1 = \<lparr> call_query = (\<lambda>_. 4),
             call_predict = (\<lambda>_ es _. 0),
             call_predict_multiclass =
               (\<lambda>_ es _. ([if is_missing (es ! 0) then 7 else get_fvalue (es ! 0), 9, 9, 9], 5)) \<rparr>"


text \<open>
  A dense batch of three rows and one column (1.0, 2.0, 3.0) with the sentinel NaN, and a
  unit declaring four groups whose multiclass entry point stores two floats per row (the
  row's feature value, then 10.0) and reports two.
\<close>

definition dense3 :: DenseBatch where
  "dense3 = \<lparr> data = [0x3F800000, 0x40000000, 0x40400000], missing_value = 0x7FC00000,
              num_row = 3, num_col = 1 \<rparr>"

definition code2 :: CodeSpace where
  "code2 = \<lparr> call_query = (\<lambda>_. 4),
             call_predict = (\<lambda>_ es _. 0),
             call_predict_multiclass =
               (\<lambda>_ es _. ([if is_missing (es ! 0) then 0 else get_fvalue (es ! 0), 0x41200000], 2)) \<rparr>"

text \<open>
  Two dense batches of two rows and two columns. The first has the sentinel NaN and a NaN in
  row 0. The second has the sentinel 0.0; its row 0 is (1.0, -0.0) and its row 1 is
  (NaN, 2.0). The scalar entry point of \<open>code3\<close> returns the first feature, or 9.0 when it
  is missing.
\<close>

definition dense_nan :: DenseBatch where
  "dense_nan = \<lparr> data = [0x3F800000, 0x7FC00000, 0x40000000, 0x40400000],
                 missing_value = 0x7FC00000, num_row = 2, num_col = 2 \<rparr>"

definition dense_fin :: DenseBatch where
  "dense_fin = \<lparr> data = [0x3F800000, 0x80000000, 0x7FC00000, 0x40000000],
                 missing_value = 0, num_row = 2, num_col = 2 \<rparr>"

definition code3 :: CodeSpace where
  "code3 = \<lparr> call_query = (\<lambda>_. 1),
             call_predict = (\<lambda>_ es _. if is_missing (es ! 0) then 0x41100000
                                      else get_fvalue (es ! 0)),
             call_predict_multiclass = (\<lambda>_ es _. ([], 0)) \<rparr>"

text \<open>
  A dense batch of two rows and one column with the sentinel NaN: row 0 is 1.0 and row 1 is
  NaN.
\<close>

definition dense_gap :: DenseBatch where
  "dense_gap = \<lparr> data = [0x3F800000, 0x7FC00000], missing_value = 0x7FC00000,
                 num_row = 2, num_col = 1 \<rparr>"

text \<open>
  Batches of \<open>n\<close> rows that hold no element: a CSR batch of one column whose rows list
  nothing, and a dense batch of no columns.
\<close>

definition csr_rows :: "nat \<Rightarrow> CSRBatch" where
  "csr_rows n = \<lparr> CSRBatch.data = [], col_ind = [], row_ptr = replicate (n + 1) 0,
                  num_row = n, num_col = 1 \<rparr>"

definition dense_empty :: "nat \<Rightarrow> DenseBatch" where
  "dense_empty n = \<lparr> data = [], missing_value = 0x7FC00000, num_row = n, num_col = 0 \<rparr>"


text \<open>
  A linker that knows one image, \<open>model.so\<close>, at handle 5, with
  \<open>get_num_output_group\<close> at address 6 and \<open>predict\<close> at address 7.
\<close>

definition dl1 :: DynamicLinker where
  "dl1 = \<lparr> dlopen = (\<lambda>name. if name = ''model.so'' then 5 else 0),
           dlsym = (\<lambda>handle name.
                      if handle = 5 \<and> name = ''get_num_output_group'' then 6
                      else if handle = 5 \<and> name = ''predict'' then 7 else 0) \<rparr>"

section \<open>Auxiliary facts\<close>

lemma is_missing_marker: "is_missing (missing (- 1))"
  by (simp add: is_missing_def get_missing_def missing_def)

lemma is_missing_fvalue: "is_missing (fvalue v) = (v = - 1)"
proof -
  have "sint v = - 1 \<longleftrightarrow> v = - 1" by (metis sint_n1 signed_word_eqI)
  then show ?thesis by (simp add: is_missing_def get_missing_def fvalue_def)
qed

lemma get_fvalue_fvalue: "get_fvalue (fvalue v) = v"
  by (simp add: get_fvalue_def fvalue_def)


lemma CheckNAN_marker: "CheckNAN (- 1)"
  by (simp add: CheckNAN_def)

lemma present_not_marker: "\<not> CheckNAN v \<Longrightarrow> \<not> is_missing (fvalue v)"
  using CheckNAN_marker by (auto simp: is_missing_fvalue)

lemma size_wrap_id: "n < 2 ^ 64 \<Longrightarrow> size_wrap n = n"
  by (simp add: size_wrap_def)

lemma size_wrap_less: "size_wrap n < 2 ^ 64"
  by (simp add: size_wrap_def)

lemma int64_of_size_id:
  assumes "n \<le> int64_max"
  shows "nat (int64_of_size n) = n"
proof -
  have n: "int n < 2 ^ 63" using assms by (simp add: int64_max_def)
  have "- (2 ^ 63) \<le> int n" by (rule order_trans [of _ 0]) simp_all
  from this n have "signed_take_bit 63 (int n) = int n"
    by (rule signed_take_bit_int_eq_self)
  then have "sint (word_of_nat n :: 64 word) = int n"
    by (simp add: signed_of_nat)
  then show ?thesis by (simp add: int64_of_size_def)
qed

lemma fold_update_length:
  "length (fold (\<lambda>i v. v[g i := h i]) js v) = length v"
  by (induction js arbitrary: v) simp_all

lemma fold_update_nth_other:
  "p \<notin> g ` set js \<Longrightarrow> fold (\<lambda>i v. v[g i := h i]) js v ! p = v ! p"
  by (induction js arbitrary: v) simp_all

lemma fold_update_const_nth:
  "p < length v \<Longrightarrow> p \<in> g ` set js \<Longrightarrow> fold (\<lambda>i v. v[g i := c]) js v ! p = c"
proof (induction js arbitrary: v)
  case Nil
  then show ?case by simp
next
  case (Cons j js)
  show ?case
  proof (cases "p \<in> g ` set js")
    case True
    with Cons show ?thesis by simp
  next
    case False
    with Cons.prems have "g j = p" by auto
    with False Cons.prems show ?thesis
      by (simp add: fold_update_nth_other [where h = "\<lambda>_. c"])
  qed
qed


lemma fold_update_slice:
  assumes "\<forall>i \<in> set js. c i < n"
  shows "take n (drop off (fold (\<lambda>i v. v[off + c i := h i]) js v))
         = fold (\<lambda>i v. v[c i := h i]) js (take n (drop off v))"
  using assms
proof (induction js arbitrary: v)
  case Nil
  then show ?case by simp
next
  case (Cons j js)
  have "take n (drop off (v[off + c j := h j])) = (take n (drop off v))[c j := h j]"
    by (simp add: drop_update_swap take_update_swap)
  with Cons show ?case by simp
qed


lemma csr_fill_nowrap:
  assumes "csr_row_wf b rid" and "off + CSRBatch.num_col b \<le> 2 ^ 64"
  shows "csr_fill b off (CSRBatch.row_ptr b ! rid) (CSRBatch.row_ptr b ! (rid + 1)) inst
         = fold (\<lambda>i v. v[off + CSRBatch.col_ind b ! i := fvalue (CSRBatch.data b ! i)])
             [CSRBatch.row_ptr b ! rid..<CSRBatch.row_ptr b ! (rid + 1)] inst"
  unfolding csr_fill_def
proof (rule fold_cong [OF refl refl])
  fix i assume "i \<in> set [CSRBatch.row_ptr b ! rid..<CSRBatch.row_ptr b ! (rid + 1)]"
  with assms(1) have "CSRBatch.col_ind b ! i < CSRBatch.num_col b"
    by (simp add: csr_row_wf_def list_all_iff)
  with assms(2) have "size_wrap (off + CSRBatch.col_ind b ! i) = off + CSRBatch.col_ind b ! i"
    by (intro size_wrap_id) simp
  then show "(\<lambda>v. v[size_wrap (off + CSRBatch.col_ind b ! i) := fvalue (CSRBatch.data b ! i)])
             = (\<lambda>v. v[off + CSRBatch.col_ind b ! i := fvalue (CSRBatch.data b ! i)])"
    by simp
qed

lemma csr_clear_nowrap:
  assumes "csr_row_wf b rid" and "off + CSRBatch.num_col b \<le> 2 ^ 64"
  shows "csr_clear b off (CSRBatch.row_ptr b ! rid) (CSRBatch.row_ptr b ! (rid + 1)) inst
         = fold (\<lambda>i v. v[off + CSRBatch.col_ind b ! i := missing (- 1)])
             [CSRBatch.row_ptr b ! rid..<CSRBatch.row_ptr b ! (rid + 1)] inst"
  unfolding csr_clear_def
proof (rule fold_cong [OF refl refl])
  fix i assume "i \<in> set [CSRBatch.row_ptr b ! rid..<CSRBatch.row_ptr b ! (rid + 1)]"
  with assms(1) have "CSRBatch.col_ind b ! i < CSRBatch.num_col b"
    by (simp add: csr_row_wf_def list_all_iff)
  with assms(2) have "size_wrap (off + CSRBatch.col_ind b ! i) = off + CSRBatch.col_ind b ! i"
    by (intro size_wrap_id) simp
  then show "(\<lambda>v. v[size_wrap (off + CSRBatch.col_ind b ! i) := missing (- 1)])
             = (\<lambda>v. v[off + CSRBatch.col_ind b ! i := missing (- 1)])"
    by simp
qed

lemma csr_fill_slice:
  assumes wf: "csr_row_wf b rid" and bound: "off + CSRBatch.num_col b \<le> L" and L: "L < 2 ^ 64"
  shows "take (CSRBatch.num_col b)
           (drop off (csr_fill b off (CSRBatch.row_ptr b ! rid) (CSRBatch.row_ptr b ! (rid + 1))
              (replicate L (missing (- 1)))))
         = csr_entries b rid"
proof -
  let ?is = "[CSRBatch.row_ptr b ! rid..<CSRBatch.row_ptr b ! (rid + 1)]"
  have cols: "\<forall>i \<in> set ?is. CSRBatch.col_ind b ! i < CSRBatch.num_col b"
    using wf by (simp add: csr_row_wf_def list_all_iff)
  have b1: "off + CSRBatch.num_col b \<le> 2 ^ 64" using bound L by simp
  have b0: "0 + CSRBatch.num_col b \<le> 2 ^ 64" using bound L by simp
  have sl: "take (CSRBatch.num_col b) (drop off (replicate L (missing (- 1))))
            = replicate (CSRBatch.num_col b) (missing (- 1))"
    using bound by (simp add: min_def)
  have "take (CSRBatch.num_col b)
          (drop off (fold (\<lambda>i v. v[off + CSRBatch.col_ind b ! i := fvalue (CSRBatch.data b ! i)])
             ?is (replicate L (missing (- 1)))))
        = fold (\<lambda>i v. v[CSRBatch.col_ind b ! i := fvalue (CSRBatch.data b ! i)]) ?is
            (take (CSRBatch.num_col b) (drop off (replicate L (missing (- 1)))))"
    by (rule fold_update_slice [OF cols])
  also have "\<dots> = fold (\<lambda>i v. v[0 + CSRBatch.col_ind b ! i := fvalue (CSRBatch.data b ! i)]) ?is
            (replicate (CSRBatch.num_col b) (missing (- 1)))"
    by (simp only: sl add_0)
  finally show ?thesis
    unfolding csr_entries_def csr_fill_nowrap [OF wf b1] csr_fill_nowrap [OF wf b0] .
qed

lemma csr_clear_fill_clean:
  assumes wf: "csr_row_wf b rid" and bound: "off + CSRBatch.num_col b \<le> 2 ^ 64"
  shows "csr_clear b off (CSRBatch.row_ptr b ! rid) (CSRBatch.row_ptr b ! (rid + 1))
           (csr_fill b off (CSRBatch.row_ptr b ! rid) (CSRBatch.row_ptr b ! (rid + 1))
              (replicate L (missing (- 1))))
         = replicate L (missing (- 1))"
proof -
  let ?is = "[CSRBatch.row_ptr b ! rid..<CSRBatch.row_ptr b ! (rid + 1)]"
  let ?g = "\<lambda>i. off + CSRBatch.col_ind b ! i"
  let ?filled = "fold (\<lambda>i v. v[?g i := fvalue (CSRBatch.data b ! i)]) ?is (replicate L (missing (- 1)))"
  let ?cleared = "fold (\<lambda>i v. v[?g i := missing (- 1)]) ?is ?filled"
  have len: "length ?cleared = L"
    by (simp add: fold_update_length)
  have "?cleared = replicate L (missing (- 1))"
  proof (rule nth_equalityI)
    show "length ?cleared = length (replicate L (missing (- 1)))"
      using len by simp
  next
    fix p assume "p < length ?cleared"
    then have p: "p < L" using len by simp
    show "?cleared ! p = replicate L (missing (- 1)) ! p"
    proof (cases "p \<in> ?g ` set ?is")
      case True
      have "p < length ?filled" using p by (simp add: fold_update_length)
      from fold_update_const_nth [OF this True] show ?thesis using p by simp
    next
      case False
      then show ?thesis
        by (simp add: fold_update_nth_other)
    qed
  qed
  then show ?thesis
    unfolding csr_fill_nowrap [OF wf bound] csr_clear_nowrap [OF wf bound] .
qed

lemma csr_row_clean:
  assumes wf: "csr_row_wf b rid" and bound: "CSRBatch.num_col b * (tid + 1) \<le> L"
    and L: "L < 2 ^ 64"
  shows "csr_row b func (tid, rid) (replicate L (missing (- 1)), out, n)
         = (replicate L (missing (- 1)),
            fst (func rid (csr_entries b rid) out),
            size_wrap (n + snd (func rid (csr_entries b rid) out)))"
proof -
  have off: "size_wrap (CSRBatch.num_col b * tid) = CSRBatch.num_col b * tid"
    using bound L by (intro size_wrap_id) simp
  have b1: "CSRBatch.num_col b * tid + CSRBatch.num_col b \<le> L"
    using bound by simp
  have b2: "CSRBatch.num_col b * tid + CSRBatch.num_col b \<le> 2 ^ 64"
    using b1 L by simp
  show ?thesis
    unfolding csr_row_def prod.case Let_def off csr_fill_slice [OF wf b1 L]
      csr_clear_fill_clean [OF wf b2] ..
qed


lemma fold_filter_update:
  "fold (\<lambda>j v. if P j then f j v else v) js v = fold f (filter P js) v"
  by (induction js arbitrary: v) simp_all

lemma dense_fill_result:
  "dense_fill nm mv dat base off js inst =
     (if \<not> nm \<and> (\<exists>j \<in> set js. CheckNAN (dat ! (base + j))) then Inl NaNInMatrix
      else Inr (fold (\<lambda>j v. v[size_wrap (off + j) := fvalue (dat ! (base + j))])
                  (filter (dense_present nm mv dat base) js) inst))"
  by (induction js arbitrary: inst) (auto simp: dense_present_def)

lemma dense_fill_nowrap:
  assumes "off + n \<le> 2 ^ 64" and "\<forall>j \<in> set js. j < n"
  shows "fold (\<lambda>j v. v[size_wrap (off + j) := h j]) js inst
         = fold (\<lambda>j v. v[off + j := h j]) js inst"
proof (rule fold_cong [OF refl refl])
  fix j assume "j \<in> set js"
  with assms have "size_wrap (off + j) = off + j"
    by (intro size_wrap_id) fastforce
  then show "(\<lambda>v. v[size_wrap (off + j) := h j]) = (\<lambda>v. v[off + j := h j])"
    by simp
qed

lemma dense_fill_slice:
  assumes bound: "off + num_col b \<le> L" and L: "L < 2 ^ 64"
  shows "dense_fill (CheckNAN (missing_value b)) (missing_value b) (data b)
           (size_wrap (rid * num_col b)) off [0..<num_col b] (replicate L (missing (- 1)))
         = (case dense_entries b rid of
              Inl e \<Rightarrow> Inl e
            | Inr es \<Rightarrow> Inr (fold (\<lambda>j v. v[off + j := fvalue (data b ! (size_wrap (rid * num_col b) + j))])
                  (filter (dense_present (CheckNAN (missing_value b)) (missing_value b) (data b)
                     (size_wrap (rid * num_col b))) [0..<num_col b])
                  (replicate L (missing (- 1)))))"
proof -
  have b1: "off + num_col b \<le> 2 ^ 64" using bound L by simp
  have js: "\<forall>j \<in> set (filter (dense_present (CheckNAN (missing_value b)) (missing_value b) (data b)
                     (size_wrap (rid * num_col b))) [0..<num_col b]). j < num_col b"
    by simp
  show ?thesis
    unfolding dense_entries_def dense_fill_result dense_fill_nowrap [OF b1 js]
    by simp
qed

lemma dense_entries_slice:
  assumes bound: "off + num_col b \<le> L" and L: "L < 2 ^ 64"
    and ok: "dense_entries b rid = Inr es"
  shows "take (num_col b) (drop off
           (fold (\<lambda>j v. v[off + j := fvalue (data b ! (size_wrap (rid * num_col b) + j))])
                  (filter (dense_present (CheckNAN (missing_value b)) (missing_value b) (data b)
                     (size_wrap (rid * num_col b))) [0..<num_col b])
                  (replicate L (missing (- 1))))) = es"
proof -
  let ?js = "filter (dense_present (CheckNAN (missing_value b)) (missing_value b) (data b)
                     (size_wrap (rid * num_col b))) [0..<num_col b]"
  let ?h = "\<lambda>j. fvalue (data b ! (size_wrap (rid * num_col b) + j))"
  have js: "\<forall>j \<in> set ?js. j < num_col b" by simp
  have b0: "0 + num_col b \<le> 2 ^ 64" using bound L by simp
  have sl: "take (num_col b) (drop off (replicate L (missing (- 1))))
            = replicate (num_col b) (missing (- 1))"
    using bound by (simp add: min_def)
  have "es = fold (\<lambda>j v. v[0 + j := ?h j]) ?js (replicate (num_col b) (missing (- 1)))"
    using ok unfolding dense_entries_def dense_fill_result dense_fill_nowrap [OF b0 js]
    by (simp split: if_splits)
  also have "\<dots> = fold (\<lambda>j v. v[j := ?h j]) ?js (take (num_col b) (drop off (replicate L (missing (- 1)))))"
    by (simp only: sl add_0)
  also have "\<dots> = take (num_col b) (drop off (fold (\<lambda>j v. v[off + j := ?h j]) ?js (replicate L (missing (- 1)))))"
    by (rule fold_update_slice [OF js, symmetric])
  finally show ?thesis by simp
qed

lemma dense_clear_fill_clean:
  assumes bound: "off + n \<le> 2 ^ 64" and sub: "set js \<subseteq> {0..<n}"
  shows "dense_clear off n (fold (\<lambda>j v. v[off + j := h j]) js (replicate L (missing (- 1))))
         = replicate L (missing (- 1))"
proof -
  let ?filled = "fold (\<lambda>j v. v[off + j := h j]) js (replicate L (missing (- 1)))"
  let ?cleared = "fold (\<lambda>j v. v[off + j := missing (- 1)]) [0..<n] ?filled"
  have all: "\<forall>j \<in> set [0..<n]. j < n" by simp
  have len: "length ?cleared = L"
    by (simp add: fold_update_length)
  have "?cleared = replicate L (missing (- 1))"
  proof (rule nth_equalityI)
    show "length ?cleared = length (replicate L (missing (- 1)))"
      using len by simp
  next
    fix p assume "p < length ?cleared"
    then have p: "p < L" using len by simp
    show "?cleared ! p = replicate L (missing (- 1)) ! p"
    proof (cases "p \<in> (\<lambda>j. off + j) ` set [0..<n]")
      case True
      have "p < length ?filled" using p by (simp add: fold_update_length)
      from fold_update_const_nth [OF this True] show ?thesis using p by simp
    next
      case False
      with sub have "p \<notin> (\<lambda>j. off + j) ` set js" by auto
      with False show ?thesis
        by (simp add: fold_update_nth_other)
    qed
  qed
  then show ?thesis
    unfolding dense_clear_def dense_fill_nowrap [OF bound all] .
qed

lemma dense_row_clean:
  assumes bound: "num_col b * (tid + 1) \<le> L" and L: "L < 2 ^ 64"
  shows "dense_row b func (tid, rid) (replicate L (missing (- 1)), out, n)
         = (case dense_entries b rid of
              Inl e \<Rightarrow> Inl e
            | Inr es \<Rightarrow> Inr (replicate L (missing (- 1)), fst (func rid es out),
                            size_wrap (n + snd (func rid es out))))"
proof -
  have off: "size_wrap (num_col b * tid) = num_col b * tid"
    using bound L by (intro size_wrap_id) simp
  have b1: "num_col b * tid + num_col b \<le> L"
    using bound by simp
  have b2: "num_col b * tid + num_col b \<le> 2 ^ 64"
    using b1 L by simp
  have sub: "set (filter (dense_present (CheckNAN (missing_value b)) (missing_value b) (data b)
                     (size_wrap (rid * num_col b))) [0..<num_col b]) \<subseteq> {0..<num_col b}"
    by auto
  show ?thesis
  proof (cases "dense_entries b rid")
    case (Inl e)
    then show ?thesis
      unfolding dense_row_def prod.case Let_def off dense_fill_slice [OF b1 L]
      by simp
  next
    case (Inr es)
    then show ?thesis
      unfolding dense_row_def prod.case Let_def off dense_fill_slice [OF b1 L]
      by (simp add: dense_entries_slice [OF b1 L Inr] dense_clear_fill_clean [OF b2 sub])
  qed
qed


lemma csr_loop_clean:
  assumes "\<forall>p \<in> set sched. csr_row_wf b (snd p) \<and> CSRBatch.num_col b * (fst p + 1) \<le> L"
    and L: "L < 2 ^ 64"
  shows "fold (csr_row b func) sched (replicate L (missing (- 1)), s)
         = (replicate L (missing (- 1)),
            fold (\<lambda>rid. row_result func (csr_entries b rid) rid) (map snd sched) s)"
  using assms(1)
proof (induction sched arbitrary: s)
  case Nil
  then show ?case by simp
next
  case (Cons p sched)
  obtain tid rid where p: "p = (tid, rid)" by (cases p)
  obtain out n where s: "s = (out, n)" by (cases s)
  from Cons.prems p have wf: "csr_row_wf b rid" and bound: "CSRBatch.num_col b * (tid + 1) \<le> L"
    by simp_all
  from Cons.prems have rest:
    "\<forall>p \<in> set sched. csr_row_wf b (snd p) \<and> CSRBatch.num_col b * (fst p + 1) \<le> L"
    by simp
  show ?case
    by (simp add: p s csr_row_clean [OF wf bound L] Cons.IH [OF rest] row_result_def)
qed

lemma dense_loop_clean:
  assumes "\<forall>p \<in> set sched. num_col b * (fst p + 1) \<le> L"
    and L: "L < 2 ^ 64"
  shows "dense_loop b func sched (replicate L (missing (- 1)), s)
         = (case dense_rows b func (map snd sched) s of
              Inl e \<Rightarrow> Inl e
            | Inr s' \<Rightarrow> Inr (replicate L (missing (- 1)), s'))"
  using assms(1)
proof (induction sched arbitrary: s)
  case Nil
  then show ?case by simp
next
  case (Cons p sched)
  obtain tid rid where p: "p = (tid, rid)" by (cases p)
  obtain out n where s: "s = (out, n)" by (cases s)
  from Cons.prems p have bound: "num_col b * (tid + 1) \<le> L"
    by simp
  from Cons.prems have rest: "\<forall>p \<in> set sched. num_col b * (fst p + 1) \<le> L"
    by simp
  show ?case
    by (cases "dense_entries b rid")
       (simp_all add: p s dense_row_clean [OF bound L] Cons.IH [OF rest] row_result_def)
qed

lemma dense_entries_error:
  "dense_entries b rid = Inl e \<Longrightarrow> e = NaNInMatrix"
  by (simp add: dense_entries_def dense_fill_result split: if_splits)

lemma dense_rows_fail:
  assumes "rid \<in> set rows" and "dense_entries b rid = Inl e"
  shows "\<exists>out'. dense_rows b func rows s = Inl (NaNInMatrix, out')"
  using assms(1)
proof (induction rows arbitrary: s)
  case Nil
  then show ?case by simp
next
  case (Cons r rows)
  show ?case
  proof (cases "dense_entries b r")
    case (Inl e')
    then show ?thesis
      using dense_entries_error [OF Inl] by simp
  next
    case (Inr es)
    with assms(2) have "r \<noteq> rid" by auto
    with Cons.prems have "rid \<in> set rows" by simp
    from Cons.IH [OF this] Inr show ?thesis by simp
  qed
qed

lemma dense_rows_ok:
  assumes "\<forall>r \<in> set rows. \<exists>es. dense_entries b r = Inr es"
  shows "dense_rows b func rows s
         = Inr (fold (\<lambda>rid. row_result func (projr (dense_entries b rid)) rid) rows s)"
  using assms
proof (induction rows arbitrary: s)
  case Nil
  then show ?case by simp
next
  case (Cons r rows)
  then obtain es where es: "dense_entries b r = Inr es" by auto
  from Cons.prems have "\<forall>r \<in> set rows. \<exists>es. dense_entries b r = Inr es" by simp
  from Cons.IH [OF this] es show ?case by simp
qed


lemma scratch_bound:
  assumes "int tid < nthread" and "nat nthread * ncol < 2 ^ 64"
  shows "ncol * (tid + 1) \<le> size_wrap (size_of_int nthread * ncol)"
proof (cases "ncol = 0")
  case True
  then show ?thesis by simp
next
  case False
  from assms(1) have pos: "0 < nthread" by simp
  have "nat nthread \<le> nat nthread * ncol" using False by simp
  from this assms(2) have "nat nthread < 2 ^ 64" by (rule le_less_trans)
  then have "nthread < 2 ^ 64" using pos by (simp add: nat_less_iff)
  then have "size_of_int nthread = nat nthread"
    using pos by (simp add: size_of_int_def)
  then have "size_wrap (size_of_int nthread * ncol) = nat nthread * ncol"
    using assms(2) by (simp add: size_wrap_id)
  moreover have "tid + 1 \<le> nat nthread" using assms(1) by simp
  then have "ncol * (tid + 1) \<le> nat nthread * ncol"
    by (metis mult.commute mult_le_mono1)
  ultimately show ?thesis by simp
qed

lemma valid_schedule_rows:
  assumes "valid_schedule nthread n sched"
  shows "set (map snd sched) = {0..<n}"
proof -
  from assms have "mset (map snd sched) = mset [0..<n]"
    unfolding valid_schedule_def by (rule conjunct1)
  then have "set (map snd sched) = set [0..<n]"
    by (rule mset_eq_setD)
  then show ?thesis by simp
qed

lemma valid_schedule_tid:
  "valid_schedule nthread n sched \<Longrightarrow> p \<in> set sched \<Longrightarrow> int (fst p) < nthread"
  by (simp add: valid_schedule_def list_all_iff)

lemma csr_wf_row: "csr_wf b \<Longrightarrow> rid < CSRBatch.num_row b \<Longrightarrow> csr_row_wf b rid"
  by (simp add: csr_wf_def list_all_iff)

lemma PredLoop_CSR_rows:
  assumes wf: "csr_wf b"
    and vs: "valid_schedule nthread (CSRBatch.num_row b) (omp nthread (CSRBatch.num_row b))"
    and sz: "nat nthread * CSRBatch.num_col b < 2 ^ 64"
    and nr: "CSRBatch.num_row b \<le> int64_max"
  shows "PredLoop_CSR omp b nthread out func
         = Inr (fold (\<lambda>rid. row_result func (csr_entries b rid) rid)
                  (map snd (omp nthread (CSRBatch.num_row b))) (out, 0))"
proof -
  let ?sched = "omp nthread (CSRBatch.num_row b)"
  let ?L = "size_wrap (size_of_int nthread * CSRBatch.num_col b)"
  have pre: "\<forall>p \<in> set ?sched. csr_row_wf b (snd p) \<and> CSRBatch.num_col b * (fst p + 1) \<le> ?L"
  proof
    fix p assume p: "p \<in> set ?sched"
    then have "snd p \<in> set (map snd ?sched)" by simp
    then have "snd p < CSRBatch.num_row b"
      using valid_schedule_rows [OF vs] by simp
    then have "csr_row_wf b (snd p)" by (rule csr_wf_row [OF wf])
    moreover have "CSRBatch.num_col b * (fst p + 1) \<le> ?L"
      by (rule scratch_bound [OF valid_schedule_tid [OF vs p] sz])
    ultimately show "csr_row_wf b (snd p) \<and> CSRBatch.num_col b * (fst p + 1) \<le> ?L" ..
  qed
  show ?thesis
    unfolding PredLoop_CSR_def Let_def int64_of_size_id [OF nr]
    using nr by (simp add: csr_loop_clean [OF pre size_wrap_less])
qed

lemma PredLoop_Dense_rows:
  assumes vs: "valid_schedule nthread (num_row b) (omp nthread (num_row b))"
    and sz: "nat nthread * num_col b < 2 ^ 64"
    and nr: "num_row b \<le> int64_max"
  shows "PredLoop_Dense omp b nthread out func
         = dense_rows b func (map snd (omp nthread (num_row b))) (out, 0)"
proof -
  let ?sched = "omp nthread (num_row b)"
  let ?L = "size_wrap (size_of_int nthread * num_col b)"
  have pre: "\<forall>p \<in> set ?sched. num_col b * (fst p + 1) \<le> ?L"
  proof
    fix p assume p: "p \<in> set ?sched"
    show "num_col b * (fst p + 1) \<le> ?L"
      by (rule scratch_bound [OF valid_schedule_tid [OF vs p] sz])
  qed
  show ?thesis
    unfolding PredLoop_Dense_def Let_def int64_of_size_id [OF nr]
    using nr by (simp add: dense_loop_clean [OF pre size_wrap_less] split: sum.splits)
qed




lemma size_wrap_add_left: "size_wrap (size_wrap a + b) = size_wrap (a + b)"
  by (simp add: size_wrap_def mod_add_left_eq)


lemma copy_forward_fold:
  assumes "d \<le> s"
  shows "fold (\<lambda>k m. m(d + k := m (s + k))) [0..<q] out
         = (\<lambda>p. if d \<le> p \<and> p < d + q then out (s + (p - d)) else out p)"
proof (induction q)
  case 0
  then show ?case by (auto simp: fun_eq_iff)
next
  case (Suc q)
  let ?m = "\<lambda>p. if d \<le> p \<and> p < d + q then out (s + (p - d)) else out p"
  have "fold (\<lambda>k m. m(d + k := m (s + k))) [0..<Suc q] out
        = (fold (\<lambda>k m. m(d + k := m (s + k))) [0..<q] out)
            (d + q := (fold (\<lambda>k m. m(d + k := m (s + k))) [0..<q] out) (s + q))"
    by simp
  also have "\<dots> = ?m(d + q := ?m (s + q))"
    by (simp only: Suc.IH)
  also have "?m (s + q) = out (s + q)"
    using assms by simp
  also have "?m(d + q := out (s + q))
             = (\<lambda>p. if d \<le> p \<and> p < d + Suc q then out (s + (p - d)) else out p)"
    by (auto simp: fun_eq_iff)
  finally show ?case .
qed

lemma reshape_row_apply:
  assumes "q \<le> g" and "rid * g + g \<le> 2 ^ 64"
  shows "reshape_row g q rid out
         = (\<lambda>p. if rid * q \<le> p \<and> p < rid * q + q then out (rid * g + (p - rid * q)) else out p)"
proof -
  have le: "rid * q \<le> rid * g" using assms(1) by simp
  have "reshape_row g q rid out = fold (\<lambda>k m. m(rid * q + k := m (rid * g + k))) [0..<q] out"
    unfolding reshape_row_def
  proof (rule fold_cong [OF refl refl])
    fix k assume "k \<in> set [0..<q]"
    then have k: "k < q" by simp
    then have src: "rid * g + k < 2 ^ 64" using assms by simp
    have "rid * q + k \<le> rid * g + k" using le by (rule add_right_mono)
    from this src have dst: "rid * q + k < 2 ^ 64" by (rule le_less_trans)
    have "size_wrap (rid * g + k) = rid * g + k" "size_wrap (rid * q + k) = rid * q + k"
      by (rule size_wrap_id [OF src], rule size_wrap_id [OF dst])
    then show "(\<lambda>m. m(size_wrap (rid * q + k) := m (size_wrap (rid * g + k))))
               = (\<lambda>m. m(rid * q + k := m (rid * g + k)))"
      by simp
  qed
  then show ?thesis
    by (simp only: copy_forward_fold [OF le])
qed

lemma reshape_apply:
  assumes q: "0 < q" "q \<le> g" and bound: "n * g \<le> 2 ^ 64"
  shows "reshape n g q out
         = (\<lambda>p. if p < n * q then out ((p div q) * g + p mod q) else out p)"
  using bound
proof (induction n)
  case 0
  then show ?case by (simp add: reshape_def)
next
  case (Suc n)
  let ?m = "\<lambda>p. if p < n * q then out ((p div q) * g + p mod q) else out p"
  have b: "n * g + g \<le> 2 ^ 64" using Suc.prems by (simp add: add.commute)
  then have "n * g \<le> 2 ^ 64" by simp
  then have IH: "fold (reshape_row g q) [0..<n] out = ?m"
    using Suc.IH by (simp add: reshape_def)
  have "reshape (Suc n) g q out = reshape_row g q n ?m"
    by (simp add: reshape_def IH)
  also have "\<dots> = (\<lambda>p. if n * q \<le> p \<and> p < n * q + q then ?m (n * g + (p - n * q)) else ?m p)"
    by (rule reshape_row_apply [OF q(2) b])
  also have "\<dots> = (\<lambda>p. if p < Suc n * q then out ((p div q) * g + p mod q) else out p)"
  proof (rule ext)
    fix p
    show "(if n * q \<le> p \<and> p < n * q + q then ?m (n * g + (p - n * q)) else ?m p)
          = (if p < Suc n * q then out ((p div q) * g + p mod q) else out p)"
    proof (cases "n * q \<le> p \<and> p < n * q + q")
      case True
      then obtain j where j: "p = n * q + j" "j < q"
        by (metis le_Suc_ex nat_add_left_cancel_less)
      have "n * q \<le> n * g" using q(2) by (rule mult_le_mono2)
      then have "\<not> n * g + j < n * q" by linarith
      moreover have "p div q = n" "p mod q = j" using j q(1) by simp_all
      ultimately show ?thesis using True j by (simp add: add.commute)
    next
      case False
      then show ?thesis by (auto simp: add.commute)
    qed
  qed
  finally show ?case .
qed

lemma map_upt_blocks:
  "map f [0..<n * k] = concat (map (\<lambda>r. map (\<lambda>j. f (r * k + j)) [0..<k]) [0..<n])"
proof (induction n)
  case 0
  then show ?case by simp
next
  case (Suc n)
  have "[0..<n * k + k] = [0..<n * k] @ [n * k..<n * k + k]"
    by (rule upt_add_eq_append) simp
  moreover have "Suc n * k = n * k + k" by simp
  ultimately have "[0..<Suc n * k] = [0..<n * k] @ [n * k..<n * k + k]"
    by (simp only:)
  moreover have "map f [n * k..<n * k + k] = map (\<lambda>j. f (n * k + j)) [0..<k]"
    by (rule nth_equalityI) simp_all
  ultimately show ?case using Suc by simp
qed

lemma omp_static_valid:
  assumes "0 < nthread"
  shows "valid_schedule nthread n (omp_static nthread n)"
proof -
  let ?t = "nat nthread"
  let ?chunk = "(n + ?t - 1) div ?t"
  have t: "0 < ?t" using assms by simp
  have rows: "map snd (omp_static nthread n) = [0..<n]"
    by (simp add: omp_static_def Let_def comp_def)
  have cover: "n \<le> ?chunk * ?t"
  proof -
    have "(n + ?t - 1) mod ?t \<le> ?t - 1"
      using mod_less_divisor [OF t, of "n + ?t - 1"] by linarith
    moreover have "?chunk * ?t + (n + ?t - 1) mod ?t = n + ?t - 1" by simp
    ultimately show ?thesis using t by linarith
  qed
  have tid: "int (rid div ?chunk) < nthread" if "rid < n" for rid
  proof -
    from that cover have "rid < ?chunk * ?t" by simp
    then have "rid div ?chunk < ?t" by (simp add: less_mult_imp_div_less mult.commute)
    then have "int (rid div ?chunk) < int ?t" by (simp only: of_nat_less_iff)
    also have "int ?t = nthread" using assms by simp
    finally show ?thesis .
  qed
  have "list_all (\<lambda>p. int (fst p) < nthread) (omp_static nthread n)"
    unfolding omp_static_def Let_def list_all_iff using tid by auto
  with rows show ?thesis by (simp add: valid_schedule_def)
qed

lemma fold_update_nth_in:
  "p < length v \<Longrightarrow> p \<in> g ` set js \<Longrightarrow>
   \<exists>i \<in> set js. g i = p \<and> fold (\<lambda>i v. v[g i := h i]) js v ! p = h i"
proof (induction js arbitrary: v)
  case Nil
  then show ?case by simp
next
  case (Cons j js)
  show ?case
  proof (cases "p \<in> g ` set js")
    case True
    have "p < length (v[g j := h j])" using Cons.prems(1) by simp
    from Cons.IH [OF this True] show ?thesis by auto
  next
    case False
    with Cons.prems have gj: "g j = p" by auto
    have "fold (\<lambda>i v. v[g i := h i]) js (v[g j := h j]) ! p = (v[g j := h j]) ! p"
      using False by (rule fold_update_nth_other)
    also have "\<dots> = h j" using gj Cons.prems(1) by simp
    finally show ?thesis using gj by simp
  qed
qed


lemma csr_entries_fold:
  assumes wf: "csr_row_wf b rid" and nc: "CSRBatch.num_col b < 2 ^ 64"
  shows "csr_entries b rid
         = fold (\<lambda>i v. v[CSRBatch.col_ind b ! i := fvalue (CSRBatch.data b ! i)])
             [CSRBatch.row_ptr b ! rid..<CSRBatch.row_ptr b ! (rid + 1)]
             (replicate (CSRBatch.num_col b) (missing (- 1)))"
proof -
  have b0: "0 + CSRBatch.num_col b \<le> 2 ^ 64" using nc by simp
  show ?thesis
    unfolding csr_entries_def csr_fill_nowrap [OF wf b0] by (simp only: add_0)
qed


lemma csr_entries_unlisted:
  assumes "csr_row_wf b rid" and "CSRBatch.num_col b < 2 ^ 64"
    and "c < CSRBatch.num_col b"
    and "c \<notin> (\<lambda>i. CSRBatch.col_ind b ! i) ` {CSRBatch.row_ptr b ! rid..<CSRBatch.row_ptr b ! (rid + 1)}"
  shows "csr_entries b rid ! c = missing (- 1)"
proof -
  have "c \<notin> (\<lambda>i. CSRBatch.col_ind b ! i) ` set [CSRBatch.row_ptr b ! rid..<CSRBatch.row_ptr b ! (rid + 1)]"
    using assms(4) by simp
  then show ?thesis
    unfolding csr_entries_fold [OF assms(1,2)]
    using assms(3) by (simp add: fold_update_nth_other)
qed



lemma dense_entries_cases:
  assumes nc: "num_col b \<le> 2 ^ 64"
  shows "dense_entries b rid =
     (if \<not> CheckNAN (missing_value b)
         \<and> (\<exists>j < num_col b. CheckNAN (data b ! (size_wrap (rid * num_col b) + j)))
      then Inl NaNInMatrix
      else Inr (fold (\<lambda>j v. v[j := fvalue (data b ! (size_wrap (rid * num_col b) + j))])
                  (filter (dense_present (CheckNAN (missing_value b)) (missing_value b) (data b)
                     (size_wrap (rid * num_col b))) [0..<num_col b])
                  (replicate (num_col b) (missing (- 1)))))"
proof -
  have b0: "0 + num_col b \<le> 2 ^ 64" using nc by simp
  have js: "\<forall>j \<in> set (filter (dense_present (CheckNAN (missing_value b)) (missing_value b) (data b)
                     (size_wrap (rid * num_col b))) [0..<num_col b]). j < num_col b"
    by simp
  have ex: "(\<exists>j \<in> set [0..<num_col b]. CheckNAN (data b ! (size_wrap (rid * num_col b) + j)))
            \<longleftrightarrow> (\<exists>j < num_col b. CheckNAN (data b ! (size_wrap (rid * num_col b) + j)))"
    by auto
  show ?thesis
    unfolding dense_entries_def dense_fill_result dense_fill_nowrap [OF b0 js] ex
    by (simp only: add_0)
qed

lemma dense_fold_nth:
  assumes "j < n"
  shows "fold (\<lambda>j v. v[j := h j]) (filter P [0..<n]) (replicate n m) ! j
         = (if P j then h j else m)"
proof (cases "P j")
  case True
  have len: "j < length (replicate n m)" using assms by simp
  have img: "j \<in> (\<lambda>j. j) ` set (filter P [0..<n])" using True assms by simp
  from fold_update_nth_in [OF len img, of h] True show ?thesis by auto
next
  case False
  then have "j \<notin> (\<lambda>j. j) ` set (filter P [0..<n])" by simp
  then have "fold (\<lambda>j v. v[j := h j]) (filter P [0..<n]) (replicate n m) ! j = replicate n m ! j"
    by (rule fold_update_nth_other)
  with False assms show ?thesis by simp
qed

lemma dense_entries_nth:
  assumes nc: "num_col b \<le> 2 ^ 64" and ok: "dense_entries b rid = Inr es"
  shows "length es = num_col b"
    and "j < num_col b \<Longrightarrow> es ! j =
          (if dense_present (CheckNAN (missing_value b)) (missing_value b) (data b)
                (size_wrap (rid * num_col b)) j
           then fvalue (data b ! (size_wrap (rid * num_col b) + j)) else missing (- 1))"
proof -
  let ?P = "dense_present (CheckNAN (missing_value b)) (missing_value b) (data b)
                     (size_wrap (rid * num_col b))"
  let ?h = "\<lambda>j. fvalue (data b ! (size_wrap (rid * num_col b) + j))"
  have es: "es = fold (\<lambda>j v. v[j := ?h j]) (filter ?P [0..<num_col b])
                   (replicate (num_col b) (missing (- 1)))"
    using ok unfolding dense_entries_cases [OF nc] by (simp split: if_splits)
  show "length es = num_col b"
    unfolding es by (simp add: fold_update_length)
  show "es ! j = (if ?P j then ?h j else missing (- 1))" if "j < num_col b"
    unfolding es using that by (rule dense_fold_nth)
qed

lemma PredictBatch_impl_failure:
  assumes "h \<noteq> 0" and "\<And>func. \<exists>out'. PredLoop (effective_nthread nthread max_thread) out func = Inl (e, out')"
  shows "\<exists>out'. PredictBatch_impl PredLoop n max_thread code nthread verbose pred_margin g h expected out
               = Inl (e, out')"
proof (cases "1 < g")
  case True
  from assms(2) obtain out' where
    "PredLoop (effective_nthread nthread max_thread) out (multiclass_func code h pred_margin g) = Inl (e, out')"
    by blast
  with True assms(1) show ?thesis by (simp add: PredictBatch_impl_def)
next
  case False
  from assms(2) obtain out' where
    "PredLoop (effective_nthread nthread max_thread) out (scalar_func code h pred_margin) = Inl (e, out')"
    by blast
  with False assms(1) show ?thesis by (simp add: PredictBatch_impl_def)
qed

lemma list_of_length_2: "length xs = 2 \<Longrightarrow> xs = [xs ! 0, xs ! 1]"
  by (cases xs; cases "tl xs") auto

lemma scalar_total:
  "snd s < 2 ^ 64 \<Longrightarrow>
   snd (fold (\<lambda>rid. row_result (scalar_func code h pm) (E rid) rid) rows s)
   = size_wrap (snd s + length rows)"
proof (induction rows arbitrary: s)
  case Nil
  then show ?case by (simp add: size_wrap_id)
next
  case (Cons r rows)
  let ?s = "row_result (scalar_func code h pm) (E r) r s"
  have step: "snd ?s = size_wrap (snd s + 1)"
    by (simp add: row_result_def scalar_func_def)
  then have "snd ?s < 2 ^ 64" by (simp only: size_wrap_less)
  from Cons.IH [OF this]
  have "snd (fold (\<lambda>rid. row_result (scalar_func code h pm) (E rid) rid) (r # rows) s)
        = size_wrap (size_wrap (snd s + 1) + length rows)"
    by (simp add: step)
  also have "\<dots> = size_wrap (snd s + 1 + length rows)"
    by (rule size_wrap_add_left)
  finally show ?case by simp
qed

lemma dense_row_error:
  "dense_row b func p s = Inl e \<Longrightarrow> e = NaNInMatrix"
  by (cases p; cases s)
     (auto simp: dense_row_def dense_fill_result Let_def split: if_splits sum.splits)

lemma dense_loop_error:
  "dense_loop b func sched s = Inl (e, out') \<Longrightarrow> e = NaNInMatrix"
proof (induction sched arbitrary: s)
  case Nil
  then show ?case by simp
next
  case (Cons p sched)
  show ?case
  proof (cases "dense_row b func p s")
    case (Inl e')
    with Cons.prems dense_row_error [OF Inl] show ?thesis by simp
  next
    case (Inr s')
    with Cons.prems have "dense_loop b func sched s' = Inl (e, out')" by simp
    then show ?thesis by (rule Cons.IH)
  qed
qed

lemma csr_rows_fields:
  "CSRBatch.num_row (csr_rows n) = n" "CSRBatch.num_col (csr_rows n) = 1"
  "CSRBatch.row_ptr (csr_rows n) = replicate (n + 1) 0"
  by (simp_all add: csr_rows_def)

lemma csr_rows_wf: "csr_wf (csr_rows n)"
  unfolding csr_wf_def list_all_iff
proof
  fix r assume "r \<in> set [0..<CSRBatch.num_row (csr_rows n)]"
  then have r: "r < n" by (simp add: csr_rows_fields)
  then have "r < n + 1" "r + 1 < n + 1" by simp_all
  then have "replicate (n + 1) (0::nat) ! r = 0" "replicate (n + 1) (0::nat) ! (r + 1) = 0"
    by (simp_all only: nth_replicate)
  then have "CSRBatch.row_ptr (csr_rows n) ! r = 0 \<and> CSRBatch.row_ptr (csr_rows n) ! (r + 1) = 0"
    by (simp only: csr_rows_fields)
  moreover have "length (CSRBatch.row_ptr (csr_rows n)) = n + 1"
    by (simp add: csr_rows_def)
  ultimately show "csr_row_wf (csr_rows n) r"
    using r by (simp add: csr_row_wf_def)
qed

lemma PredictBatch_impl_loop_error:
  assumes "h \<noteq> 0" and "\<And>func. PredLoop (effective_nthread nthread max_thread) out func = Inl (e, out)"
  shows "PredictBatch_impl PredLoop n max_thread code nthread verbose pred_margin g h expected out
         = Inl (e, out)"
  using assms by (simp add: PredictBatch_impl_def)

lemma omp_static_rows: "map snd (omp_static nthread n) = [0..<n]"
  by (simp add: omp_static_def Let_def comp_def)

lemma csr_rows_accepted:
  assumes nr: "n \<le> int64_max"
  shows "map_sum fst snd
           (PredictBatch_impl (PredLoop_CSR omp_static (csr_rows n)) n 1 code3 1 0 False 1 77 n
              (\<lambda>_. 0))
         = Inr n"
proof -
  let ?F = "scalar_func code3 77 False"
  let ?run = "fold (\<lambda>rid. row_result ?F (csr_entries (csr_rows n) rid) rid)
                (map snd (omp_static 1 (CSRBatch.num_row (csr_rows n)))) (\<lambda>_. 0, 0)"
  have nt: "effective_nthread 1 1 = 1" by (simp add: effective_nthread_def)
  have vs: "valid_schedule 1 (CSRBatch.num_row (csr_rows n))
              (omp_static 1 (CSRBatch.num_row (csr_rows n)))"
    by (rule omp_static_valid) simp
  have sz: "nat 1 * CSRBatch.num_col (csr_rows n) < 2 ^ 64"
    by (simp add: csr_rows_fields)
  have nr': "CSRBatch.num_row (csr_rows n) \<le> int64_max"
    using nr by (simp add: csr_rows_fields)
  have loop: "PredLoop_CSR omp_static (csr_rows n) 1 (\<lambda>_. 0) ?F = Inr ?run"
    by (rule PredLoop_CSR_rows [where omp = omp_static, OF csr_rows_wf vs sz nr'])
  have "n < 2 ^ 64" using nr by (simp add: int64_max_def)
  then have total: "snd ?run = n"
    by (simp add: scalar_total omp_static_rows csr_rows_fields size_wrap_id)
  have "?run = (fst ?run, snd ?run)" by simp
  then have pair: "?run = (fst ?run, n)" by (simp only: total)
  have loop': "PredLoop_CSR omp_static (csr_rows n) 1 (\<lambda>_. 0) ?F = Inr (fst ?run, n)"
    using loop pair by simp
  have "PredictBatch_impl (PredLoop_CSR omp_static (csr_rows n)) n 1 code3 1 0 False 1 77 n
          (\<lambda>_. 0) = Inr (fst ?run, n)"
    by (simp add: PredictBatch_impl_def nt loop')
  then show ?thesis by simp
qed

lemma dense_rows_prefix:
  assumes "\<forall>r \<in> set pre. \<exists>es. dense_entries b r = Inr es"
    and "dense_entries b rid = Inl e"
  shows "dense_rows b func (pre @ rid # post) s
         = Inl (e, fst (fold (\<lambda>r. row_result func (projr (dense_entries b r)) r) pre s))"
  using assms(1)
proof (induction pre arbitrary: s)
  case Nil
  then show ?case using assms(2) by simp
next
  case (Cons r pre)
  then obtain es where es: "dense_entries b r = Inr es" by auto
  from Cons.prems have "\<forall>r \<in> set pre. \<exists>es. dense_entries b r = Inr es" by simp
  from Cons.IH [OF this] es show ?case by simp
qed

lemma PredictBatch_impl_Inl:
  assumes "h \<noteq> 0"
    and "PredLoop (effective_nthread nthread max_thread) out
           (if 1 < g then multiclass_func code h pred_margin g
            else scalar_func code h pred_margin) = Inl e"
  shows "PredictBatch_impl PredLoop n max_thread code nthread verbose pred_margin g h expected out
         = Inl e"
  using assms by (cases "1 < g") (simp_all add: PredictBatch_impl_def)

lemma Load_failure_handle:
  assumes "Load dl code name (p, images) = Inl (e, (p', images'))"
  shows "pred_func_handle p' = 0 \<or> pred_func_handle p' = pred_func_handle p"
  using assms
  by (auto simp: Load_def Let_def split: if_splits)

lemma Free_fields: "fst (Free s) = fst s"
  by (cases s) (simp add: Free_def)

lemma exec_never_loaded:
  assumes "no_load_succeeds dl code calls s" and "pred_func_handle (fst s) = 0"
  shows "pred_func_handle (fst (fold (exec dl code) calls s)) = 0"
  using assms
proof (induction calls arbitrary: s)
  case Nil
  then show ?case by simp
next
  case (Cons c calls)
  have step: "pred_func_handle (fst (exec dl code c s)) = 0"
  proof (cases c)
    case (CallLoad name)
    with Cons.prems(1) have "isl (Load dl code name s)" by simp
    then obtain e s' where l: "Load dl code name s = Inl (e, s')"
      by (cases "Load dl code name s") auto
    obtain p images where s: "s = (p, images)" by (cases s)
    obtain p' images' where s': "s' = (p', images')" by (cases s')
    from Load_failure_handle [of dl code name p images e p' images'] l s s' Cons.prems(2)
    have "pred_func_handle p' = 0" by auto
    with CallLoad l s' show ?thesis by simp
  next
    case CallFree
    with Cons.prems(2) show ?thesis by (simp add: Free_fields)
  qed
  from Cons.prems(1) have "no_load_succeeds dl code calls (exec dl code c s)" by simp
  from Cons.IH [OF this step] show ?case by simp
qed







section \<open>Interleavings\<close>








































section \<open>Evaluation rules\<close>

lemma upt_eval: "i < j \<Longrightarrow> [i..<j] = i # [i + 1..<j]"
  by (simp add: upt_rec)

lemma replicate_eval: "0 < n \<Longrightarrow> replicate n x = x # replicate (n - 1) x"
  by (cases n) simp_all

lemma list_update_eval: "0 < i \<Longrightarrow> (x # xs)[i := v] = x # xs[i - 1 := v]"
  by (cases i) simp_all

lemmas eval_defs = observe_def PredictBatch_impl_def PredLoop_CSR_def omp_static_def
  effective_nthread_def multiclass_func_def scalar_func_def store_floats_def csr_row_def
  csr_fill_def csr_clear_def size_wrap_def size_of_int_def int64_max_def upt_eval
  int64_of_size_id replicate_eval list_update_eval
  PredLoop_Dense_def dense_row_def dense_clear_def CheckNAN_def float_ne_def
  reshape_def reshape_row_def is_missing_marker is_missing_fvalue get_fvalue_fvalue

section \<open>Reshaping a narrower output\<close>

text \<open>
  C1. When the loop's total is below \<open>num_row * num_output_group\<close> (the expected size of a
  buffer that fits into \<open>size_t\<close>), the call fails unless the group count exceeds 1, the
  total is a multiple of \<open>num_row\<close> and the width \<open>k = total / num_row\<close> is positive; \<open>k\<close> is
  then below the group count. When the checks pass the call returns the total, and every
  slot \<open>r * k + j\<close> with \<open>r < num_row\<close>, \<open>j < k\<close> holds what the loop left at
  \<open>r * num_output_group + j\<close>: the first \<open>total\<close> floats are the rows' first \<open>k\<close> values in
  row-major order, and nothing from \<open>total\<close> on is touched.
\<close>

theorem reshape_compacts_rows:
  assumes loaded: "h \<noteq> 0"
    and run: "(if 1 < g
               then PredLoop (effective_nthread nthread max_thread) out
                      (multiclass_func code h pred_margin g)
               else PredLoop (effective_nthread nthread max_thread) out
                      (scalar_func code h pred_margin))
              = Inr (out1, total_size)"
    and less: "total_size < n * g"
    and expected: "expected = n * g"
    and bound: "n * g < 2 ^ 64"
  shows "PredictBatch_impl PredLoop n max_thread code nthread verbose pred_margin g h expected out
         = (if \<not> 1 < g then Inl (ReshapeGroups, out1)
            else if total_size mod n \<noteq> 0 then Inl (ReshapeNotMultiple, out1)
            else if total_size div n = 0 then Inl (ReshapeZeroWidth, out1)
            else Inr (reshape n g (total_size div n) out1, total_size))
       \<and> (1 < g \<and> total_size mod n = 0 \<and> 0 < total_size div n \<longrightarrow>
            total_size div n < g
          \<and> (\<forall>r < n. \<forall>j < total_size div n.
                reshape n g (total_size div n) out1 (r * (total_size div n) + j) = out1 (r * g + j))
          \<and> map (reshape n g (total_size div n) out1) [0..<total_size]
              = concat (map (\<lambda>r. map (\<lambda>j. out1 (r * g + j)) [0..<total_size div n]) [0..<n])
          \<and> (\<forall>p \<ge> total_size. reshape n g (total_size div n) out1 p = out1 p))"
proof -
  let ?k = "total_size div n"
  have n: "0 < n" using less by (cases n) simp_all
  have "total_size < g * n" using less by (simp only: mult.commute)
  then have klt: "?k < g" by (rule less_mult_imp_div_less)
  have first: "PredictBatch_impl PredLoop n max_thread code nthread verbose pred_margin g h expected out
         = (if \<not> 1 < g then Inl (ReshapeGroups, out1)
            else if total_size mod n \<noteq> 0 then Inl (ReshapeNotMultiple, out1)
            else if total_size div n = 0 then Inl (ReshapeZeroWidth, out1)
            else Inr (reshape n g (total_size div n) out1, total_size))"
    using loaded run less n klt by (simp add: PredictBatch_impl_def expected)
  have second: "total_size div n < g
          \<and> (\<forall>r < n. \<forall>j < ?k. reshape n g ?k out1 (r * ?k + j) = out1 (r * g + j))
          \<and> map (reshape n g ?k out1) [0..<total_size]
              = concat (map (\<lambda>r. map (\<lambda>j. out1 (r * g + j)) [0..<?k]) [0..<n])
          \<and> (\<forall>p \<ge> total_size. reshape n g ?k out1 p = out1 p)"
    if "1 < g" and dvd: "total_size mod n = 0" and kpos: "0 < ?k"
  proof -
    have tot: "total_size = n * ?k" using dvd by auto
    have kle: "?k \<le> g" using klt by simp
    have b: "n * g \<le> 2 ^ 64" using bound by simp
    note R = reshape_apply [OF kpos kle b, of out1]
    have cell: "reshape n g ?k out1 (r * ?k + j) = out1 (r * g + j)" if "r < n" "j < ?k" for r j
    proof -
      have "r * ?k + j < r * ?k + ?k" using that by simp
      also have "\<dots> = Suc r * ?k" by simp
      also have "\<dots> \<le> n * ?k" using that(1) by (intro mult_le_mono1) simp
      finally have "r * ?k + j < n * ?k" .
      moreover have "(r * ?k + j) div ?k = r" "(r * ?k + j) mod ?k = j"
        using that(2) by simp_all
      ultimately show ?thesis by (simp add: R)
    qed
    have "map (reshape n g ?k out1) [0..<n * ?k]
          = concat (map (\<lambda>r. map (\<lambda>j. reshape n g ?k out1 (r * ?k + j)) [0..<?k]) [0..<n])"
      by (rule map_upt_blocks)
    also have "\<dots> = concat (map (\<lambda>r. map (\<lambda>j. out1 (r * g + j)) [0..<?k]) [0..<n])"
    proof -
      have "map (\<lambda>j. reshape n g ?k out1 (r * ?k + j)) [0..<?k]
            = map (\<lambda>j. out1 (r * g + j)) [0..<?k]" if "r \<in> set [0..<n]" for r
        using that cell by simp
      then have "map (\<lambda>r. map (\<lambda>j. reshape n g ?k out1 (r * ?k + j)) [0..<?k]) [0..<n]
                 = map (\<lambda>r. map (\<lambda>j. out1 (r * g + j)) [0..<?k]) [0..<n]"
        by (rule map_cong [OF refl])
      then show ?thesis by (rule arg_cong)
    qed
    finally have blocks: "map (reshape n g ?k out1) [0..<total_size]
          = concat (map (\<lambda>r. map (\<lambda>j. out1 (r * g + j)) [0..<?k]) [0..<n])"
      using tot by simp
    have rest: "reshape n g ?k out1 p = out1 p" if "total_size \<le> p" for p
      using that tot by (simp add: R)
    show ?thesis
    proof (intro conjI allI impI)
      show "?k < g" by (rule klt)
    next
      fix r j assume "r < n" "j < ?k"
      then show "reshape n g ?k out1 (r * ?k + j) = out1 (r * g + j)" by (rule cell)
    next
      show "map (reshape n g ?k out1) [0..<total_size]
            = concat (map (\<lambda>r. map (\<lambda>j. out1 (r * g + j)) [0..<?k]) [0..<n])"
        by (rule blocks)
    next
      fix p assume "total_size \<le> p"
      then show "reshape n g ?k out1 p = out1 p" by (rule rest)
    qed
  qed
  show ?thesis
  proof (rule conjI [OF first], rule impI)
    assume "1 < g \<and> total_size mod n = 0 \<and> 0 < total_size div n"
    then have "1 < g" "total_size mod n = 0" "0 < total_size div n" by simp_all
    then show "total_size div n < g
          \<and> (\<forall>r < n. \<forall>j < ?k. reshape n g ?k out1 (r * ?k + j) = out1 (r * g + j))
          \<and> map (reshape n g ?k out1) [0..<total_size]
              = concat (map (\<lambda>r. map (\<lambda>j. out1 (r * g + j)) [0..<?k]) [0..<n])
          \<and> (\<forall>p \<ge> total_size. reshape n g ?k out1 p = out1 p)"
      by (rule second)
  qed
qed

text \<open>
  Four groups, three rows, a unit that stores and reports two floats per row: the call
  returns 6 and the first six floats are the three rows' pairs.
\<close>

theorem reshape_compacts_rows_witness:
  "observe 6 (PredictBatch_impl (PredLoop_Dense omp_static dense3) 3 2 code2 0 0 False 4 77 12 (\<lambda>_. 0))
     = Inr ([0x3F800000, 0x41200000, 0x40000000, 0x41200000, 0x40400000, 0x41200000], 6)"
proof -
  let ?run = "PredLoop_Dense omp_static dense3 (effective_nthread 0 2) (\<lambda>_. 0)
                (multiclass_func code2 77 False 4)"
  let ?out1 = "fst (projr ?run)"
  have h: "(77::nat) \<noteq> 0" by simp
  have run: "(if 1 < (4::nat) then ?run
              else PredLoop_Dense omp_static dense3 (effective_nthread 0 2) (\<lambda>_. 0)
                     (scalar_func code2 77 False))
             = Inr (?out1, 6)"
    by (simp add: eval_defs dense3_def code2_def)
  have less: "(6::nat) < 3 * 4" by simp
  have expected: "(12::nat) = 3 * 4" by simp
  have bound: "(3::nat) * 4 < 2 ^ 64" by simp
  note T = reshape_compacts_rows
      [where PredLoop = "PredLoop_Dense omp_static dense3" and nthread = 0 and max_thread = 2
         and out = "\<lambda>_. 0" and code = code2 and h = 77 and pred_margin = False and g = 4
         and n = 3 and expected = 12 and verbose = 0, OF h run less expected bound]
  have checks: "1 < (4::nat) \<and> (6::nat) mod 3 = 0 \<and> 0 < (6::nat) div 3" by simp
  from T have res: "PredictBatch_impl (PredLoop_Dense omp_static dense3) 3 2 code2 0 0 False 4 77 12 (\<lambda>_. 0)
        = Inr (reshape 3 4 (6 div 3) ?out1, 6)"
    by simp
  from T checks have blocks: "map (reshape 3 4 (6 div 3) ?out1) [0..<6]
        = concat (map (\<lambda>r. map (\<lambda>j. ?out1 (r * 4 + j)) [0..<6 div 3]) [0..<3])"
    by blast
  have vals: "concat (map (\<lambda>r. map (\<lambda>j. ?out1 (r * 4 + j)) [0..<6 div 3]) [0..<3])
        = [0x3F800000, 0x41200000, 0x40000000, 0x41200000, 0x40400000, 0x41200000]"
    by (simp add: eval_defs dense3_def code2_def)
  show ?thesis
    unfolding res by (simp only: observe_def sum.case prod.case blocks vals)
qed

section \<open>Materialising a dense row\<close>

text \<open>
  C2. For a well-formed dense batch whose row count and matrix size fit, run by a valid
  schedule:
  with a NaN sentinel every row materialises, each NaN element missing and every other
  element present with its value, and the loop raises no error; with a sentinel that is
  not NaN, a row holding a NaN is rejected with the input error and so is the whole call,
  while in a row without NaN an element that compares equal to the sentinel is missing and
  every other element is present with its value. The row iteration hands exactly these
  entries to the unit. A slot that holds the marker is read as missing, and a slot assigned
  a value that is not NaN is read as present, with that value.
\<close>

theorem dense_missing_value_policy:
  assumes vs: "valid_schedule (effective_nthread nthread max_thread) (num_row b)
                 (omp (effective_nthread nthread max_thread) (num_row b))"
    and sz: "nat (effective_nthread nthread max_thread) * num_col b < 2 ^ 64"
    and nr: "num_row b \<le> int64_max"
    and rid: "rid < num_row b"
    and nowrap: "num_row b * num_col b < 2 ^ 64"
    and loaded: "h \<noteq> 0"
    and shape: "dense_wf b"
  shows "(CheckNAN (missing_value b) \<longrightarrow>
            (\<exists>es. dense_entries b rid = Inr es \<and> length es = num_col b
               \<and> (\<forall>j < num_col b. es ! j =
                     (if CheckNAN (data b ! (rid * num_col b + j)) then missing (- 1)
                      else fvalue (data b ! (rid * num_col b + j)))))
          \<and> (\<exists>r. PredLoop_Dense omp b (effective_nthread nthread max_thread) out func = Inr r))
       \<and> (\<not> CheckNAN (missing_value b)
            \<and> (\<exists>j < num_col b. CheckNAN (data b ! (rid * num_col b + j))) \<longrightarrow>
            dense_entries b rid = Inl NaNInMatrix
          \<and> (\<exists>out'. PredictBatch_impl (PredLoop_Dense omp b) (num_row b) max_thread code nthread
                        verbose pred_margin g h expected out = Inl (NaNInMatrix, out')))
       \<and> (\<not> CheckNAN (missing_value b)
            \<and> (\<forall>j < num_col b. \<not> CheckNAN (data b ! (rid * num_col b + j))) \<longrightarrow>
            (\<exists>es. dense_entries b rid = Inr es \<and> length es = num_col b
               \<and> (\<forall>j < num_col b. es ! j =
                     (if float_ne (data b ! (rid * num_col b + j)) (missing_value b)
                      then fvalue (data b ! (rid * num_col b + j)) else missing (- 1)))))
       \<and> (\<forall>tid. int tid < effective_nthread nthread max_thread \<longrightarrow>
            dense_row b func (tid, rid)
              (replicate (size_wrap (size_of_int (effective_nthread nthread max_thread) * num_col b))
                 (missing (- 1)), out, n)
            = (case dense_entries b rid of
                 Inl e \<Rightarrow> Inl e
               | Inr es \<Rightarrow>
                   Inr (replicate (size_wrap (size_of_int (effective_nthread nthread max_thread)
                                      * num_col b)) (missing (- 1)),
                        fst (func rid es out), size_wrap (n + snd (func rid es out)))))
       \<and> is_missing (missing (- 1))
       \<and> (\<forall>x. \<not> CheckNAN x \<longrightarrow> \<not> is_missing (fvalue x) \<and> get_fvalue (fvalue x) = x)"
proof -
  let ?nt = "effective_nthread nthread max_thread"
  let ?rows = "map snd (omp ?nt (num_row b))"
  have "rid * num_col b \<le> num_row b * num_col b"
    using rid by (intro mult_le_mono1) simp
  with nowrap have "rid * num_col b < 2 ^ 64" by linarith
  then have base: "size_wrap (rid * num_col b) = rid * num_col b"
    by (rule size_wrap_id)
  have "num_col b \<le> num_row b * num_col b" using rid by (cases "num_row b") simp_all
  with nowrap have nc: "num_col b \<le> 2 ^ 64" by linarith
  note cases = dense_entries_cases [OF nc, of rid, unfolded base]
  have in_rows: "rid \<in> set ?rows"
    using valid_schedule_rows [OF vs] rid by simp
  have loop: "PredLoop_Dense omp b ?nt out' f = dense_rows b f ?rows (out', 0)" for out' f
    by (rule PredLoop_Dense_rows [where omp = omp, OF vs sz nr])
  have nan_sentinel: "(\<exists>es. dense_entries b rid = Inr es \<and> length es = num_col b
               \<and> (\<forall>j < num_col b. es ! j =
                     (if CheckNAN (data b ! (rid * num_col b + j)) then missing (- 1)
                      else fvalue (data b ! (rid * num_col b + j)))))
          \<and> (\<exists>r. PredLoop_Dense omp b ?nt out func = Inr r)"
    if nm: "CheckNAN (missing_value b)"
  proof -
    have all_ok: "\<exists>es. dense_entries b r = Inr es" for r
      using nm by (simp add: dense_entries_cases [OF nc])
    then obtain es where es: "dense_entries b rid = Inr es" by blast
    have "es ! j = (if CheckNAN (data b ! (rid * num_col b + j)) then missing (- 1)
                    else fvalue (data b ! (rid * num_col b + j)))" if "j < num_col b" for j
      using dense_entries_nth(2) [OF nc es that] nm by (simp add: base dense_present_def)
    moreover have "length es = num_col b" by (rule dense_entries_nth(1) [OF nc es])
    moreover have "\<exists>r. PredLoop_Dense omp b ?nt out func = Inr r"
      unfolding loop using dense_rows_ok [of ?rows b func "(out, 0)"] all_ok by simp
    ultimately show ?thesis using es by simp
  qed
  have rejected: "dense_entries b rid = Inl NaNInMatrix
          \<and> (\<exists>out'. PredictBatch_impl (PredLoop_Dense omp b) (num_row b) max_thread code nthread
                        verbose pred_margin g h expected out = Inl (NaNInMatrix, out'))"
    if "\<not> CheckNAN (missing_value b)"
      and "\<exists>j < num_col b. CheckNAN (data b ! (rid * num_col b + j))"
  proof -
    have bad: "dense_entries b rid = Inl NaNInMatrix"
      using that by (simp add: cases)
    have "\<exists>out'. PredLoop_Dense omp b ?nt out f = Inl (NaNInMatrix, out')" for f
      unfolding loop by (rule dense_rows_fail [OF in_rows bad])
    then have "\<exists>out'. PredictBatch_impl (PredLoop_Dense omp b) (num_row b) max_thread code nthread
                        verbose pred_margin g h expected out = Inl (NaNInMatrix, out')"
      by (rule PredictBatch_impl_failure [OF loaded])
    with bad show ?thesis ..
  qed
  have finite_sentinel: "\<exists>es. dense_entries b rid = Inr es \<and> length es = num_col b
               \<and> (\<forall>j < num_col b. es ! j =
                     (if float_ne (data b ! (rid * num_col b + j)) (missing_value b)
                      then fvalue (data b ! (rid * num_col b + j)) else missing (- 1)))"
    if nm: "\<not> CheckNAN (missing_value b)"
      and clean: "\<forall>j < num_col b. \<not> CheckNAN (data b ! (rid * num_col b + j))"
  proof -
    have "\<exists>es. dense_entries b rid = Inr es"
      using nm clean by (simp add: cases)
    then obtain es where es: "dense_entries b rid = Inr es" by blast
    have "es ! j = (if float_ne (data b ! (rid * num_col b + j)) (missing_value b)
                    then fvalue (data b ! (rid * num_col b + j)) else missing (- 1))"
      if "j < num_col b" for j
      using dense_entries_nth(2) [OF nc es that] nm clean that
      by (simp add: base dense_present_def)
    moreover have "length es = num_col b" by (rule dense_entries_nth(1) [OF nc es])
    ultimately show ?thesis using es by simp
  qed
  have row: "dense_row b func (tid, rid)
              (replicate (size_wrap (size_of_int ?nt * num_col b)) (missing (- 1)), out, n)
            = (case dense_entries b rid of
                 Inl e \<Rightarrow> Inl e
               | Inr es \<Rightarrow>
                   Inr (replicate (size_wrap (size_of_int ?nt * num_col b)) (missing (- 1)),
                        fst (func rid es out), size_wrap (n + snd (func rid es out))))"
    if "int tid < ?nt" for tid
    by (rule dense_row_clean [OF scratch_bound [OF that sz] size_wrap_less])
  show ?thesis
  proof (intro conjI allI impI)
    assume "CheckNAN (missing_value b)"
    from nan_sentinel [OF this]
    show "\<exists>es. dense_entries b rid = Inr es \<and> length es = num_col b
               \<and> (\<forall>j < num_col b. es ! j =
                     (if CheckNAN (data b ! (rid * num_col b + j)) then missing (- 1)
                      else fvalue (data b ! (rid * num_col b + j))))"
      and "\<exists>r. PredLoop_Dense omp b ?nt out func = Inr r"
      by (rule conjunct1, rule conjunct2)
  next
    assume a: "\<not> CheckNAN (missing_value b)
            \<and> (\<exists>j < num_col b. CheckNAN (data b ! (rid * num_col b + j)))"
    from rejected [OF conjunct1 [OF a] conjunct2 [OF a]]
    show "dense_entries b rid = Inl NaNInMatrix"
      and "\<exists>out'. PredictBatch_impl (PredLoop_Dense omp b) (num_row b) max_thread code nthread
                        verbose pred_margin g h expected out = Inl (NaNInMatrix, out')"
      by (rule conjunct1, rule conjunct2)
  next
    assume a: "\<not> CheckNAN (missing_value b)
            \<and> (\<forall>j < num_col b. \<not> CheckNAN (data b ! (rid * num_col b + j)))"
    show "\<exists>es. dense_entries b rid = Inr es \<and> length es = num_col b
               \<and> (\<forall>j < num_col b. es ! j =
                     (if float_ne (data b ! (rid * num_col b + j)) (missing_value b)
                      then fvalue (data b ! (rid * num_col b + j)) else missing (- 1)))"
      by (rule finite_sentinel [OF conjunct1 [OF a] conjunct2 [OF a]])
  next
    fix tid assume "int tid < ?nt"
    then show "dense_row b func (tid, rid)
              (replicate (size_wrap (size_of_int ?nt * num_col b)) (missing (- 1)), out, n)
            = (case dense_entries b rid of
                 Inl e \<Rightarrow> Inl e
               | Inr es \<Rightarrow>
                   Inr (replicate (size_wrap (size_of_int ?nt * num_col b)) (missing (- 1)),
                        fst (func rid es out), size_wrap (n + snd (func rid es out))))"
      by (rule row)
  next
    show "is_missing (missing (- 1))" by (rule is_missing_marker)
  next
    fix x :: float assume "\<not> CheckNAN x"
    then show "\<not> is_missing (fvalue x)" by (rule present_not_marker)
  next
    fix x :: float
    show "get_fvalue (fvalue x) = x" by (rule get_fvalue_fvalue)
  qed
qed

text \<open>
  A NaN under the NaN sentinel is missing; -0.0 compares equal to the sentinel 0.0 and is
  missing; the row (NaN, 2.0) under the sentinel 0.0 is rejected, and so is the call.
\<close>

theorem dense_missing_value_policy_witness:
  "dense_entries dense_nan 0 = Inr [fvalue 0x3F800000, missing (- 1)]
   \<and> dense_entries dense_fin 0 = Inr [fvalue 0x3F800000, missing (- 1)]
   \<and> dense_entries dense_fin 1 = Inl NaNInMatrix
   \<and> map_sum fst (\<lambda>_. ())
         (PredictBatch_impl (PredLoop_Dense omp_static dense_fin) 2 2 code3 1 0 False 1 77 2 (\<lambda>_. 0))
       = Inl NaNInMatrix"
proof -
  have nt: "effective_nthread 1 2 = 1" by (simp add: effective_nthread_def)
  have vs: "valid_schedule (effective_nthread 1 2) n (omp_static (effective_nthread 1 2) n)" for n
    unfolding nt by (rule omp_static_valid) simp
  have loaded: "(77::nat) \<noteq> 0" by simp
  have nan_dims: "num_row dense_nan = 2" "num_col dense_nan = 2"
    and fin_dims: "num_row dense_fin = 2" "num_col dense_fin = 2"
    by (simp_all add: dense_nan_def dense_fin_def)
  have sz: "nat (effective_nthread 1 2) * 2 < (2::nat) ^ 64" unfolding nt by simp
  have nr: "(2::nat) \<le> int64_max" by (simp add: int64_max_def)
  have nowrap: "(2::nat) * 2 < 2 ^ 64" by simp
  have r0: "(0::nat) < 2" and r1: "(1::nat) < 2" by simp_all
  note T = dense_missing_value_policy [where omp = omp_static and nthread = 1 and max_thread = 2
             and h = 77 and code = code3 and verbose = 0 and pred_margin = False and g = 1
             and expected = 2 and out = "\<lambda>_. 0" and func = "scalar_func code3 77 False" and n = 0]
  have shape_nan: "dense_wf dense_nan" and shape_fin: "dense_wf dense_fin"
    by (simp_all add: dense_wf_def dense_nan_def dense_fin_def)
  note T_nan = T [where b = dense_nan and rid = 0, unfolded nan_dims,
                  OF vs sz nr r0 nowrap loaded shape_nan]
  note T_fin0 = T [where b = dense_fin and rid = 0, unfolded fin_dims,
                   OF vs sz nr r0 nowrap loaded shape_fin]
  note T_fin1 = T [where b = dense_fin and rid = 1, unfolded fin_dims,
                   OF vs sz nr r1 nowrap loaded shape_fin]
  have "CheckNAN (missing_value dense_nan)"
    by (simp add: dense_nan_def CheckNAN_def)
  with T_nan obtain es where es: "dense_entries dense_nan 0 = Inr es" "length es = 2"
    "\<forall>j < 2. es ! j = (if CheckNAN (data dense_nan ! (0 * 2 + j)) then missing (- 1)
                         else fvalue (data dense_nan ! (0 * 2 + j)))"
    by blast
  from es(3) have "es ! 0 = fvalue 0x3F800000" "es ! 1 = missing (- 1)"
    by (simp_all add: dense_nan_def CheckNAN_def)
  with list_of_length_2 [OF es(2)] es(1)
  have a: "dense_entries dense_nan 0 = Inr [fvalue 0x3F800000, missing (- 1)]" by simp
  have fin0: "\<not> CheckNAN (missing_value dense_fin)
              \<and> (\<forall>j < 2. \<not> CheckNAN (data dense_fin ! (0 * 2 + j)))"
    by (simp add: dense_fin_def CheckNAN_def less_2_cases_iff)
  with T_fin0 obtain fs where fs: "dense_entries dense_fin 0 = Inr fs" "length fs = 2"
    "\<forall>j < 2. fs ! j = (if float_ne (data dense_fin ! (0 * 2 + j)) (missing_value dense_fin)
                         then fvalue (data dense_fin ! (0 * 2 + j)) else missing (- 1))"
    by blast
  from fs(3) have "fs ! 0 = fvalue 0x3F800000" "fs ! 1 = missing (- 1)"
    by (simp_all add: dense_fin_def CheckNAN_def float_ne_def)
  with list_of_length_2 [OF fs(2)] fs(1)
  have b: "dense_entries dense_fin 0 = Inr [fvalue 0x3F800000, missing (- 1)]" by simp
  have "(0::nat) < 2 \<and> CheckNAN (data dense_fin ! (1 * 2 + 0))"
    by (simp add: dense_fin_def CheckNAN_def)
  then have "\<exists>j < 2. CheckNAN (data dense_fin ! (1 * 2 + j))"
    by (rule exI)
  moreover have "\<not> CheckNAN (missing_value dense_fin)"
    by (simp add: dense_fin_def CheckNAN_def)
  ultimately have fin1: "\<not> CheckNAN (missing_value dense_fin)
              \<and> (\<exists>j < 2. CheckNAN (data dense_fin ! (1 * 2 + j)))"
    by simp
  with T_fin1 have c: "dense_entries dense_fin 1 = Inl NaNInMatrix"
    and "\<exists>out'. PredictBatch_impl (PredLoop_Dense omp_static dense_fin) 2 2 code3 1 0 False 1 77 2
                   (\<lambda>_. 0) = Inl (NaNInMatrix, out')"
    by blast+
  then have d: "map_sum fst (\<lambda>_. ())
         (PredictBatch_impl (PredLoop_Dense omp_static dense_fin) 2 2 code3 1 0 False 1 77 2 (\<lambda>_. 0))
       = Inl NaNInMatrix"
    by auto
  from a b c d show ?thesis by simp
qed

section \<open>Materialising a CSR row\<close>




section \<open>Predicting without a loaded unit\<close>

text \<open>
  C4 (amended). On a predictor on which no \<open>Load\<close> has succeeded since its construction,
  whatever loads have failed and whatever calls of \<open>Free\<close> were made, every batch
  prediction fails with the not-loaded error and leaves the output memory untouched.
  \<open>Free\<close> closes the library image and changes no field of the object: the library handle
  and both entry points keep their values.
\<close>

theorem predict_without_load_rejected:
  assumes "no_load_succeeds dl code calls (Predictor_new uninitialised, images)"
  shows "PredictBatch_CSR omp max_thread code
           (fst (fold (exec dl code) calls (Predictor_new uninitialised, images)))
           csr nthread verbose pred_margin out
         = Inl (NotLoaded, out)
       \<and> PredictBatch_Dense omp max_thread code
           (fst (fold (exec dl code) calls (Predictor_new uninitialised, images)))
           dense nthread verbose pred_margin out
         = Inl (NotLoaded, out)
       \<and> fst (Free s) = fst s
       \<and> snd (Free s) = CloseLibrary (lib_handle (fst s)) (snd s)"
proof -
  have "pred_func_handle (fst (Predictor_new uninitialised, images)) = 0"
    by (simp add: Predictor_new_def)
  from exec_never_loaded [OF assms this]
  have "pred_func_handle (fst (fold (exec dl code) calls (Predictor_new uninitialised, images))) = 0" .
  then show ?thesis
    by (cases s) (simp add: PredictBatch_CSR_def PredictBatch_Dense_def PredictBatch_impl_def Free_def)
qed

text \<open>A fresh predictor after a \<open>Free\<close>, a failed \<open>Load\<close> and another \<open>Free\<close>.\<close>

theorem predict_without_load_rejected_witness:
  "PredictBatch_Dense omp_static 2 code3
     (fst (fold (exec dl1 code3) [CallFree, CallLoad ''other.so'', CallFree] (Predictor_new 3, [])))
     dense_nan 1 0 False (\<lambda>_. 0)
   = Inl (NotLoaded, \<lambda>_. 0)
   \<and> PredictBatch_CSR omp_static 2 code3
     (fst (fold (exec dl1 code3) [CallFree, CallLoad ''other.so'', CallFree] (Predictor_new 3, [])))
     csr1 1 0 False (\<lambda>_. 0)
   = Inl (NotLoaded, \<lambda>_. 0)"
proof -
  have "no_load_succeeds dl1 code3 [CallFree, CallLoad ''other.so'', CallFree] (Predictor_new 3, [])"
    by (simp add: Load_def Free_def OpenLibrary_def CloseLibrary_def dl1_def Predictor_new_def
          Let_def)
  from predict_without_load_rejected [OF this] show ?thesis by blast
qed

text \<open>
  The claim as stated has \<open>Free\<close> invalidate the entry points, so that a later prediction
  is rejected. After a successful \<open>Load\<close> and a \<open>Free\<close> no image is open any more, the
  prediction entry point still holds its address 7, and the batch call passes the check and
  goes through that address (what such a call does in the closed image is not part of the
  model, which keeps the unit's code): it is not rejected.
\<close>

theorem predict_without_load_rejected_counterexample:
  "isl (Load dl1 code3 ''model.so'' (Predictor_new 3, [])) = False
   \<and> snd (Free (projr (Load dl1 code3 ''model.so'' (Predictor_new 3, [])))) = []
   \<and> pred_func_handle (fst (Free (projr (Load dl1 code3 ''model.so'' (Predictor_new 3, []))))) = 7
   \<and> observe 2
       (PredictBatch_Dense omp_static 2 code3
          (fst (Free (projr (Load dl1 code3 ''model.so'' (Predictor_new 3, [])))))
          dense_nan 1 0 False (\<lambda>_. 0))
     = Inr ([0x3F800000, 0x40000000], 2)"
proof -
  have load: "Load dl1 code3 ''model.so'' (Predictor_new 3, [])
        = Inr (\<lparr> lib_handle = 5, query_func_handle = 6, pred_func_handle = 7,
                 num_output_group = 1 \<rparr>, [5])"
    by (simp add: Load_def OpenLibrary_def LoadFunction_def dl1_def code3_def Predictor_new_def
          Let_def)
  show ?thesis
    unfolding load
    by (simp add: Free_def CloseLibrary_def PredictBatch_Dense_def QueryResultSize_def
          eval_defs dense_nan_def code3_def)
qed

section \<open>The scratch slice between two rows\<close>

text \<open>
  C5. Two rows \<open>i\<close> and \<open>j\<close> (in particular \<open>j = i + 1\<close>) run one after the other by the same
  thread, on a scratch vector that is all missing before row \<open>i\<close>. The iteration of row \<open>i\<close>
  calls the unit on the entries of row \<open>i\<close> and returns the vector all missing: every slot
  it assigned is cleared after the call. The iteration of row \<open>j\<close> on the state left by row
  \<open>i\<close> calls the unit on the entries of row \<open>j\<close> as filled into a fresh slice, with the output
  memory and the total left by row \<open>i\<close>, and returns the vector all missing again. In the
  entries of a CSR row every column the row does not list holds the marker, whether or not
  the earlier row listed it, and while a CSR row is filled every slot it does not list
  keeps the marker. This holds for well-formed CSR rows (only the listed slots are cleared)
  and for well-formed dense batches (the whole slice is cleared), where a dense row whose
  fill fails raises the input error instead of calling the unit.
\<close>

theorem scratch_slots_reset_between_rows:
  assumes wf_i: "csr_row_wf b i" and wf_j: "csr_row_wf b j"
    and bound: "CSRBatch.num_col b * (tid + 1) \<le> L" and L: "L < 2 ^ 64"
    and dbound: "num_col d * (tid + 1) \<le> M" and M: "M < 2 ^ 64"
    and ok: "dense_entries d i = Inr es"
    and shape: "dense_wf d"
  shows "csr_row b func (tid, i) (replicate L (missing (- 1)), out, n)
           = (replicate L (missing (- 1)),
              fst (func i (csr_entries b i) out),
              size_wrap (n + snd (func i (csr_entries b i) out)))
       \<and> csr_row b func (tid, j)
           (csr_row b func (tid, i) (replicate L (missing (- 1)), out, n))
           = (replicate L (missing (- 1)),
              fst (func j (csr_entries b j) (fst (func i (csr_entries b i) out))),
              size_wrap (size_wrap (n + snd (func i (csr_entries b i) out))
                         + snd (func j (csr_entries b j) (fst (func i (csr_entries b i) out)))))
       \<and> (\<forall>c. c < CSRBatch.num_col b
              \<and> c \<notin> (\<lambda>k. CSRBatch.col_ind b ! k)
                       ` {CSRBatch.row_ptr b ! j..<CSRBatch.row_ptr b ! (j + 1)}
              \<longrightarrow> csr_entries b j ! c = missing (- 1))
       \<and> (\<forall>p. p < L \<and> p \<notin> (\<lambda>k. size_wrap (CSRBatch.num_col b * tid) + CSRBatch.col_ind b ! k)
                              ` {CSRBatch.row_ptr b ! i..<CSRBatch.row_ptr b ! (i + 1)}
              \<longrightarrow> csr_fill b (size_wrap (CSRBatch.num_col b * tid))
                    (CSRBatch.row_ptr b ! i) (CSRBatch.row_ptr b ! (i + 1))
                    (replicate L (missing (- 1))) ! p = missing (- 1))
       \<and> dense_row d func (tid, i) (replicate M (missing (- 1)), out, n)
           = Inr (replicate M (missing (- 1)),
                  fst (func i es out), size_wrap (n + snd (func i es out)))
       \<and> dense_row d func (tid, j)
           (replicate M (missing (- 1)), fst (func i es out), size_wrap (n + snd (func i es out)))
           = (case dense_entries d j of
                Inl e \<Rightarrow> Inl e
              | Inr es' \<Rightarrow>
                  Inr (replicate M (missing (- 1)),
                       fst (func j es' (fst (func i es out))),
                       size_wrap (size_wrap (n + snd (func i es out))
                                  + snd (func j es' (fst (func i es out))))))"
proof -
  have "CSRBatch.num_col b \<le> CSRBatch.num_col b * (tid + 1)" by simp
  with bound L have nc: "CSRBatch.num_col b < 2 ^ 64" by linarith
  have off: "size_wrap (CSRBatch.num_col b * tid) = CSRBatch.num_col b * tid"
    using bound L by (intro size_wrap_id) simp
  have b1: "CSRBatch.num_col b * tid + CSRBatch.num_col b \<le> L" using bound by simp
  have b2: "CSRBatch.num_col b * tid + CSRBatch.num_col b \<le> 2 ^ 64" using b1 L by simp
  have row_i: "csr_row b func (tid, i) (replicate L (missing (- 1)), out, n)
           = (replicate L (missing (- 1)),
              fst (func i (csr_entries b i) out),
              size_wrap (n + snd (func i (csr_entries b i) out)))"
    by (rule csr_row_clean [OF wf_i bound L])
  have row_j: "csr_row b func (tid, j)
           (csr_row b func (tid, i) (replicate L (missing (- 1)), out, n))
           = (replicate L (missing (- 1)),
              fst (func j (csr_entries b j) (fst (func i (csr_entries b i) out))),
              size_wrap (size_wrap (n + snd (func i (csr_entries b i) out))
                         + snd (func j (csr_entries b j) (fst (func i (csr_entries b i) out)))))"
    unfolding row_i by (rule csr_row_clean [OF wf_j bound L])
  have unlisted: "csr_entries b j ! c = missing (- 1)"
    if "c < CSRBatch.num_col b"
      and "c \<notin> (\<lambda>k. CSRBatch.col_ind b ! k)
                 ` {CSRBatch.row_ptr b ! j..<CSRBatch.row_ptr b ! (j + 1)}" for c
    using that by (rule csr_entries_unlisted [OF wf_j nc])
  have untouched: "csr_fill b (size_wrap (CSRBatch.num_col b * tid))
                    (CSRBatch.row_ptr b ! i) (CSRBatch.row_ptr b ! (i + 1))
                    (replicate L (missing (- 1))) ! p = missing (- 1)"
    if "p < L" and "p \<notin> (\<lambda>k. size_wrap (CSRBatch.num_col b * tid) + CSRBatch.col_ind b ! k)
                              ` {CSRBatch.row_ptr b ! i..<CSRBatch.row_ptr b ! (i + 1)}" for p
  proof -
    have "p \<notin> (\<lambda>k. CSRBatch.num_col b * tid + CSRBatch.col_ind b ! k)
                 ` set [CSRBatch.row_ptr b ! i..<CSRBatch.row_ptr b ! (i + 1)]"
      using that(2) unfolding off by simp
    then show ?thesis
      unfolding off csr_fill_nowrap [OF wf_i b2]
      using that(1) by (simp add: fold_update_nth_other)
  qed
  have drow_i: "dense_row d func (tid, i) (replicate M (missing (- 1)), out, n)
           = Inr (replicate M (missing (- 1)),
                  fst (func i es out), size_wrap (n + snd (func i es out)))"
    unfolding dense_row_clean [OF dbound M] by (simp add: ok)
  have drow_j: "dense_row d func (tid, j)
           (replicate M (missing (- 1)), fst (func i es out), size_wrap (n + snd (func i es out)))
           = (case dense_entries d j of
                Inl e \<Rightarrow> Inl e
              | Inr es' \<Rightarrow>
                  Inr (replicate M (missing (- 1)),
                       fst (func j es' (fst (func i es out))),
                       size_wrap (size_wrap (n + snd (func i es out))
                                  + snd (func j es' (fst (func i es out))))))"
    by (rule dense_row_clean [OF dbound M])
  show ?thesis
  proof (intro conjI allI impI)
    fix c
    assume "c < CSRBatch.num_col b
            \<and> c \<notin> (\<lambda>k. CSRBatch.col_ind b ! k)
                     ` {CSRBatch.row_ptr b ! j..<CSRBatch.row_ptr b ! (j + 1)}"
    then show "csr_entries b j ! c = missing (- 1)"
      using unlisted by blast
  next
    fix p
    assume "p < L \<and> p \<notin> (\<lambda>k. size_wrap (CSRBatch.num_col b * tid) + CSRBatch.col_ind b ! k)
                              ` {CSRBatch.row_ptr b ! i..<CSRBatch.row_ptr b ! (i + 1)}"
    then show "csr_fill b (size_wrap (CSRBatch.num_col b * tid))
                    (CSRBatch.row_ptr b ! i) (CSRBatch.row_ptr b ! (i + 1))
                    (replicate L (missing (- 1))) ! p = missing (- 1)"
      using untouched by blast
  qed (rule row_i row_j drow_i drow_j)+
qed

text \<open>
  Thread 0 runs row 0 and then row 1. In the CSR batch row 0 lists column 0 with 1.0 and row
  1 lists column 1 alone; in the dense batch row 0 is 1.0 and row 1 is NaN under the NaN
  sentinel. The unit returns the first feature, or 9.0 when it is missing: the prediction
  of row 1 is 9.0 in both cases, the 1.0 of row 0 is gone, and the vector is all missing
  after each row.
\<close>

theorem scratch_slots_reset_between_rows_witness:
  "csr_row csr1 (scalar_func code3 77 False) (0, 0) (replicate 4 (missing (- 1)), \<lambda>_. 0, 0)
     = (replicate 4 (missing (- 1)), (\<lambda>_. 0)(0 := 0x3F800000), 1)
   \<and> csr_row csr1 (scalar_func code3 77 False) (0, 0 + 1)
       (csr_row csr1 (scalar_func code3 77 False) (0, 0) (replicate 4 (missing (- 1)), \<lambda>_. 0, 0))
     = (replicate 4 (missing (- 1)), (\<lambda>_. 0)(0 := 0x3F800000, 0 + 1 := 0x41100000), 2)
   \<and> csr_entries csr1 (0 + 1) ! 0 = missing (- 1)
   \<and> dense_row dense_gap (scalar_func code3 77 False) (0, 0)
       (replicate 1 (missing (- 1)), \<lambda>_. 0, 0)
     = Inr (replicate 1 (missing (- 1)), (\<lambda>_. 0)(0 := 0x3F800000), 1)
   \<and> dense_row dense_gap (scalar_func code3 77 False) (0, 0 + 1)
       (replicate 1 (missing (- 1)), (\<lambda>_. 0)(0 := 0x3F800000), 1)
     = Inr (replicate 1 (missing (- 1)), (\<lambda>_. 0)(0 := 0x3F800000, 0 + 1 := 0x41100000), 2)"
proof -
  let ?F = "scalar_func code3 77 False"
  have wf0: "csr_row_wf csr1 0" and wf1: "csr_row_wf csr1 (0 + 1)"
    by (simp_all add: csr_row_wf_def csr1_def upt_eval)
  have bound: "CSRBatch.num_col csr1 * (0 + 1) \<le> 4"
    by (simp add: csr1_def)
  have dbound: "num_col dense_gap * (0 + 1) \<le> 1"
    by (simp add: dense_gap_def)
  have L: "(4::nat) < 2 ^ 64" and M: "(1::nat) < 2 ^ 64" by simp_all
  have d0: "dense_entries dense_gap 0 = Inr [fvalue 0x3F800000]"
    by (simp add: dense_entries_def dense_gap_def CheckNAN_def float_ne_def size_wrap_def upt_eval
          replicate_eval list_update_eval)
  have d1: "dense_entries dense_gap (0 + 1) = Inr [missing (- 1)]"
    by (simp add: dense_entries_def dense_gap_def CheckNAN_def float_ne_def size_wrap_def upt_eval
          replicate_eval list_update_eval)
  have shape: "dense_wf dense_gap"
    by (simp add: dense_wf_def dense_gap_def)
  note T = scratch_slots_reset_between_rows
             [OF wf0 wf1 bound L dbound M d0 shape, of ?F "\<lambda>_. 0" 0]
  have e0: "csr_entries csr1 0 = [fvalue 0x3F800000, missing (- 1)]"
    by (simp add: csr_entries_def csr_fill_def csr1_def size_wrap_def upt_eval
          replicate_eval list_update_eval)
  have e1: "csr_entries csr1 (0 + 1) = [missing (- 1), fvalue 0x40000000]"
    by (simp add: csr_entries_def csr_fill_def csr1_def size_wrap_def upt_eval
          replicate_eval list_update_eval)
  have f0: "?F 0 [fvalue 0x3F800000, missing (- 1)] (\<lambda>_. 0) = ((\<lambda>_. 0)(0 := 0x3F800000), 1)"
    by (simp add: scalar_func_def code3_def is_missing_fvalue get_fvalue_fvalue)
  have f1: "?F (0 + 1) [missing (- 1), fvalue 0x40000000] ((\<lambda>_. 0)(0 := 0x3F800000))
            = ((\<lambda>_. 0)(0 := 0x3F800000, 0 + 1 := 0x41100000), 1)"
    by (simp add: scalar_func_def code3_def is_missing_marker)
  have g0: "?F 0 [fvalue 0x3F800000] (\<lambda>_. 0) = ((\<lambda>_. 0)(0 := 0x3F800000), 1)"
    by (simp add: scalar_func_def code3_def is_missing_fvalue get_fvalue_fvalue)
  have g1: "?F (0 + 1) [missing (- 1)] ((\<lambda>_. 0)(0 := 0x3F800000))
            = ((\<lambda>_. 0)(0 := 0x3F800000, 0 + 1 := 0x41100000), 1)"
    by (simp add: scalar_func_def code3_def is_missing_marker)
  have s1: "size_wrap (0 + 1) = 1" and s2: "size_wrap (1 + 1) = 2"
    by (simp_all add: size_wrap_def)
  note c1 = T [THEN conjunct1, unfolded e0 f0 fst_conv snd_conv s1]
  note c2 = T [THEN conjunct2, THEN conjunct1, unfolded e0 e1 f0 fst_conv snd_conv f1 s1 s2]
  have listed: "(0::nat) < CSRBatch.num_col csr1
                \<and> 0 \<notin> (\<lambda>k. CSRBatch.col_ind csr1 ! k)
                         ` {CSRBatch.row_ptr csr1 ! (0 + 1)..<CSRBatch.row_ptr csr1 ! (0 + 1 + 1)}"
    by (simp add: csr1_def atLeastLessThan_def lessThan_def atLeast_def)
       (auto simp: less_Suc_eq_le numeral_2_eq_2)
  from T have "\<forall>c. c < CSRBatch.num_col csr1
              \<and> c \<notin> (\<lambda>k. CSRBatch.col_ind csr1 ! k)
                       ` {CSRBatch.row_ptr csr1 ! (0 + 1)..<CSRBatch.row_ptr csr1 ! (0 + 1 + 1)}
              \<longrightarrow> csr_entries csr1 (0 + 1) ! c = missing (- 1)"
    by blast
  with listed have c3: "csr_entries csr1 (0 + 1) ! 0 = missing (- 1)"
    by blast
  note c5 = T [THEN conjunct2, THEN conjunct2, THEN conjunct2, THEN conjunct2, THEN conjunct1,
               unfolded g0 fst_conv snd_conv s1]
  note c6 = T [THEN conjunct2, THEN conjunct2, THEN conjunct2, THEN conjunct2, THEN conjunct2,
               unfolded g0 fst_conv snd_conv s1 d1 sum.case g1 s2]
  show ?thesis
    by (intro conjI c1 c2 c3 c5 c6)
qed

section \<open>Where a batch call fails\<close>

text \<open>
  C6 (amended). A call on a predictor without a prediction entry point fails at once with the
  not-loaded error, and a row count above the signed 64-bit range fails before the loop; in
  both cases the output memory is untouched. The NaN failure of a well-formed dense batch
  whose sentinel is not NaN is raised inside the loop, when the first scheduled row that holds a NaN is
  filled: the output memory then holds what the rows scheduled before it have written.
\<close>

theorem failures_where_raised:
  assumes vs: "valid_schedule (effective_nthread nthread max_thread) (num_row b)
                 (omp (effective_nthread nthread max_thread) (num_row b))"
    and sz: "nat (effective_nthread nthread max_thread) * num_col b < 2 ^ 64"
    and nr: "num_row b \<le> int64_max"
    and order: "omp (effective_nthread nthread max_thread) (num_row b) = pre @ (tid, rid) # post"
    and good: "\<forall>p \<in> set pre. \<exists>es. dense_entries b (snd p) = Inr es"
    and bad: "dense_entries b rid = Inl NaNInMatrix"
    and loaded: "h \<noteq> 0"
    and shape: "dense_wf b"
  shows "PredictBatch_impl (PredLoop_Dense omp b) (num_row b) max_thread code nthread verbose
           pred_margin g h expected out
         = Inl (NaNInMatrix,
                fst (fold (\<lambda>r. row_result
                                 (if 1 < g then multiclass_func code h pred_margin g
                                  else scalar_func code h pred_margin)
                                 (projr (dense_entries b r)) r)
                       (map snd pre) (out, 0)))
       \<and> PredictBatch_impl PredLoop n max_thread code nthread verbose pred_margin g 0 expected out
         = Inl (NotLoaded, out)
       \<and> (int64_max < num_row d \<longrightarrow>
            PredictBatch_impl (PredLoop_Dense omp d) (num_row d) max_thread code nthread verbose
              pred_margin g h expected out = Inl (NumRowTooLarge, out))
       \<and> (int64_max < CSRBatch.num_row c \<longrightarrow>
            PredictBatch_impl (PredLoop_CSR omp c) (CSRBatch.num_row c) max_thread code nthread
              verbose pred_margin g h expected out = Inl (NumRowTooLarge, out))"
proof -
  let ?nt = "effective_nthread nthread max_thread"
  let ?F = "if 1 < g then multiclass_func code h pred_margin g else scalar_func code h pred_margin"
  have good': "\<forall>r \<in> set (map snd pre). \<exists>es. dense_entries b r = Inr es"
    using good by simp
  have "PredLoop_Dense omp b ?nt out ?F = dense_rows b ?F (map snd (omp ?nt (num_row b))) (out, 0)"
    by (rule PredLoop_Dense_rows [where omp = omp, OF vs sz nr])
  also have "map snd (omp ?nt (num_row b)) = map snd pre @ rid # map snd post"
    by (simp add: order)
  also have "dense_rows b ?F (map snd pre @ rid # map snd post) (out, 0)
             = Inl (NaNInMatrix,
                    fst (fold (\<lambda>r. row_result ?F (projr (dense_entries b r)) r)
                           (map snd pre) (out, 0)))"
    by (rule dense_rows_prefix [OF good' bad])
  finally have nan: "PredictBatch_impl (PredLoop_Dense omp b) (num_row b) max_thread code nthread
           verbose pred_margin g h expected out
         = Inl (NaNInMatrix,
                fst (fold (\<lambda>r. row_result ?F (projr (dense_entries b r)) r)
                       (map snd pre) (out, 0)))"
    by (rule PredictBatch_impl_Inl [OF loaded])
  have unloaded: "PredictBatch_impl PredLoop n max_thread code nthread verbose pred_margin g 0
                    expected out = Inl (NotLoaded, out)"
    by (simp add: PredictBatch_impl_def)
  have dense_big: "PredictBatch_impl (PredLoop_Dense omp d) (num_row d) max_thread code nthread
              verbose pred_margin g h expected out = Inl (NumRowTooLarge, out)"
    if "int64_max < num_row d"
    using that by (intro PredictBatch_impl_Inl [OF loaded]) (simp add: PredLoop_Dense_def Let_def)
  have csr_big: "PredictBatch_impl (PredLoop_CSR omp c) (CSRBatch.num_row c) max_thread code
              nthread verbose pred_margin g h expected out = Inl (NumRowTooLarge, out)"
    if "int64_max < CSRBatch.num_row c"
    using that by (intro PredictBatch_impl_Inl [OF loaded]) (simp add: PredLoop_CSR_def Let_def)
  from nan unloaded dense_big csr_big show ?thesis by (intro conjI impI)
qed

text \<open>
  The dense batch with the sentinel 0.0, one thread: row 0 is written, row 1 holds the NaN.
  An unloaded predictor and a batch of \<open>2 ^ 63\<close> rows fail with the output untouched.
\<close>

theorem failures_where_raised_witness:
  "PredictBatch_impl (PredLoop_Dense omp_static dense_fin) 2 2 code3 1 0 False 1 77 2 (\<lambda>_. 0)
     = Inl (NaNInMatrix, (\<lambda>_. 0)(0 := 0x3F800000))
   \<and> PredictBatch_impl (PredLoop_Dense omp_static dense_fin) 2 2 code3 1 0 False 1 0 2 (\<lambda>_. 0)
     = Inl (NotLoaded, \<lambda>_. 0)
   \<and> PredictBatch_impl (PredLoop_Dense omp_static (dense_empty (2 ^ 63))) (2 ^ 63) 2 code3 1 0
         False 1 77 2 (\<lambda>_. 0)
     = Inl (NumRowTooLarge, \<lambda>_. 0)
   \<and> PredictBatch_impl (PredLoop_CSR omp_static (csr_rows (2 ^ 63))) (2 ^ 63) 2 code3 1 0
         False 1 77 2 (\<lambda>_. 0)
     = Inl (NumRowTooLarge, \<lambda>_. 0)"
proof -
  have nt: "effective_nthread 1 2 = 1" by (simp add: effective_nthread_def)
  have dims: "num_row dense_fin = 2" "num_col dense_fin = 2"
    by (simp_all add: dense_fin_def)
  have fields: "CSRBatch.num_row (csr_rows n) = n" "num_row (dense_empty n) = n" for n
    by (simp_all add: csr_rows_def dense_empty_def)
  have vs: "valid_schedule (effective_nthread 1 2) 2 (omp_static (effective_nthread 1 2) 2)"
    unfolding nt by (rule omp_static_valid) simp
  have sz: "nat (effective_nthread 1 2) * 2 < (2::nat) ^ 64" unfolding nt by simp
  have nr: "(2::nat) \<le> int64_max" by (simp add: int64_max_def)
  have order: "omp_static (effective_nthread 1 2) 2 = [(0, 0)] @ (0, 1) # []"
    unfolding nt by (simp add: omp_static_def upt_eval)
  have e0: "dense_entries dense_fin 0 = Inr [fvalue 0x3F800000, missing (- 1)]"
    by (simp add: dense_entries_def dense_fin_def CheckNAN_def float_ne_def size_wrap_def upt_eval
          replicate_eval list_update_eval)
  then have good: "\<forall>p \<in> set [(0::nat, 0::nat)]. \<exists>es. dense_entries dense_fin (snd p) = Inr es"
    by simp
  have bad: "dense_entries dense_fin 1 = Inl NaNInMatrix"
    by (simp add: dense_entries_def dense_fin_def CheckNAN_def float_ne_def size_wrap_def upt_eval)
  have loaded: "(77::nat) \<noteq> 0" by simp
  have large: "int64_max < (2 ^ 63 :: nat)" by (simp add: int64_max_def)
  have shape: "dense_wf dense_fin"
    by (simp add: dense_wf_def dense_fin_def)
  note T = failures_where_raised
      [where b = dense_fin and omp = omp_static and nthread = 1 and max_thread = 2
         and d = "dense_empty (2 ^ 63)" and c = "csr_rows (2 ^ 63)" and out = "\<lambda>_. 0"
         and code = code3 and verbose = 0 and pred_margin = False and g = 1 and h = 77
         and expected = 2 and PredLoop = "PredLoop_Dense omp_static dense_fin" and n = 2,
       unfolded dims fields, OF vs sz nr order good bad loaded shape]
  have written: "fst (fold (\<lambda>r. row_result
                                 (if 1 < (1::nat) then multiclass_func code3 77 False 1
                                  else scalar_func code3 77 False)
                                 (projr (dense_entries dense_fin r)) r)
                       (map snd [(0::nat, 0::nat)]) (\<lambda>_. 0, 0))
                 = (\<lambda>_. 0)(0 := 0x3F800000)"
    by (simp add: e0 row_result_def scalar_func_def code3_def is_missing_fvalue get_fvalue_fvalue)
  note t1 = T [THEN conjunct1, unfolded written]
  note t2 = T [THEN conjunct2, THEN conjunct1]
  from T large have t3: "PredictBatch_impl (PredLoop_Dense omp_static (dense_empty (2 ^ 63)))
         (2 ^ 63) 2 code3 1 0 False 1 77 2 (\<lambda>_. 0) = Inl (NumRowTooLarge, \<lambda>_. 0)"
    and t4: "PredictBatch_impl (PredLoop_CSR omp_static (csr_rows (2 ^ 63))) (2 ^ 63) 2 code3 1 0
         False 1 77 2 (\<lambda>_. 0) = Inl (NumRowTooLarge, \<lambda>_. 0)"
    by blast+
  show ?thesis
    by (intro conjI t1 t2 t3 t4)
qed

text \<open>
  The claim as stated has every failure raised before the loop. In the same call the first
  float of the output memory, 0 before the call, holds row 0's prediction 1.0 when the NaN
  failure of row 1 is raised.
\<close>

theorem failures_where_raised_counterexample:
  "observe 2 (PredictBatch_impl (PredLoop_Dense omp_static dense_fin) 2 2 code3 1 0 False 1 77 2
                (\<lambda>_. 0))
   = Inl (NaNInMatrix, [0x3F800000, 0])"
proof -
  show ?thesis
    by (simp add: eval_defs dense_fin_def code3_def)
qed

section \<open>The row count\<close>

text \<open>
  C7 (amended). The row-count check accepts every \<open>num_row\<close> up to the largest signed 64-bit
  value itself, \<open>2 ^ 63 - 1\<close>, and then the cast to the signed row index keeps the value; a
  \<open>num_row\<close> above \<open>2 ^ 63 - 1\<close> fails the check before the loop runs, with the output memory
  untouched, for CSR and dense batches alike, and the failure is the result of the batch
  call of a loaded predictor.
\<close>

theorem row_count_check:
  "(CSRBatch.num_row b \<le> int64_max \<longrightarrow>
      (\<forall>out'. PredLoop_CSR omp b nthread out func \<noteq> Inl (NumRowTooLarge, out'))
    \<and> int64_of_size (CSRBatch.num_row b) = int (CSRBatch.num_row b))
   \<and> (num_row d \<le> int64_max \<longrightarrow>
      (\<forall>out'. PredLoop_Dense omp d nthread out func \<noteq> Inl (NumRowTooLarge, out'))
    \<and> int64_of_size (num_row d) = int (num_row d))
   \<and> (int64_max < CSRBatch.num_row b \<longrightarrow>
      PredLoop_CSR omp b nthread out func = Inl (NumRowTooLarge, out)
    \<and> (h \<noteq> 0 \<longrightarrow>
         PredictBatch_impl (PredLoop_CSR omp b) (CSRBatch.num_row b) max_thread code
           requested verbose pred_margin g h expected out = Inl (NumRowTooLarge, out)))
   \<and> (int64_max < num_row d \<longrightarrow>
      PredLoop_Dense omp d nthread out func = Inl (NumRowTooLarge, out)
    \<and> (h \<noteq> 0 \<longrightarrow>
         PredictBatch_impl (PredLoop_Dense omp d) (num_row d) max_thread code
           requested verbose pred_margin g h expected out = Inl (NumRowTooLarge, out)))
   \<and> int64_max = 2 ^ 63 - 1"
proof -
  have cast: "int64_of_size n = int n" if "n \<le> int64_max" for n
  proof -
    have "0 \<le> int64_of_size n"
      using int64_of_size_id [OF that] by (cases "n = 0") (simp_all add: int64_of_size_def)
    then show ?thesis using int64_of_size_id [OF that] by simp
  qed
  have csr_ok: "PredLoop_CSR omp b nthread out func \<noteq> Inl (NumRowTooLarge, out')"
    if "CSRBatch.num_row b \<le> int64_max" for out'
    using that by (simp add: PredLoop_CSR_def Let_def split: prod.splits)
  have dense_ok: "PredLoop_Dense omp d nthread out func \<noteq> Inl (NumRowTooLarge, out')"
    if small: "num_row d \<le> int64_max" for out'
  proof
    assume a: "PredLoop_Dense omp d nthread out func = Inl (NumRowTooLarge, out')"
    have "\<exists>s. dense_loop d func (omp nthread (nat (int64_of_size (num_row d)))) s
                         = Inl (NumRowTooLarge, out')"
      using a small by (auto simp: PredLoop_Dense_def Let_def split: sum.splits)
    then obtain s where "dense_loop d func (omp nthread (nat (int64_of_size (num_row d)))) s
                         = Inl (NumRowTooLarge, out')"
      by blast
    from dense_loop_error [OF this] show False by simp
  qed
  have csr_bad: "PredLoop_CSR omp b nt out f = Inl (NumRowTooLarge, out)"
    if "int64_max < CSRBatch.num_row b" for nt f
    using that by (simp add: PredLoop_CSR_def Let_def)
  have dense_bad: "PredLoop_Dense omp d nt out f = Inl (NumRowTooLarge, out)"
    if "int64_max < num_row d" for nt f
    using that by (simp add: PredLoop_Dense_def Let_def)
  show ?thesis
    using cast csr_ok dense_ok csr_bad dense_bad
      PredictBatch_impl_loop_error [where PredLoop = "PredLoop_CSR omp b" and e = NumRowTooLarge]
      PredictBatch_impl_loop_error [where PredLoop = "PredLoop_Dense omp d" and e = NumRowTooLarge]
    by (simp add: int64_max_def)
qed

text \<open>
  A row count of \<open>2 ^ 63 - 2\<close> passes the check and keeps its value in the cast; \<open>2 ^ 63\<close>
  fails it, and the batch call returns the failure with the output untouched.
\<close>

theorem row_count_check_witness:
  "PredLoop_CSR omp_static (csr_rows (2 ^ 63 - 2)) 1 (\<lambda>_. 0) (scalar_func code3 77 False)
     \<noteq> Inl (NumRowTooLarge, \<lambda>_. 0)
   \<and> int64_of_size (2 ^ 63 - 2) = 2 ^ 63 - 2
   \<and> PredLoop_Dense omp_static (dense_empty (2 ^ 63 - 2)) 1 (\<lambda>_. 0) (scalar_func code3 77 False)
     \<noteq> Inl (NumRowTooLarge, \<lambda>_. 0)
   \<and> PredictBatch_impl (PredLoop_CSR omp_static (csr_rows (2 ^ 63))) (2 ^ 63) 1 code3
          1 0 False 1 77 (2 ^ 63) (\<lambda>_. 0)
     = Inl (NumRowTooLarge, \<lambda>_. 0)
   \<and> PredictBatch_impl (PredLoop_Dense omp_static (dense_empty (2 ^ 63))) (2 ^ 63) 1 code3
          1 0 False 1 77 (2 ^ 63) (\<lambda>_. 0)
     = Inl (NumRowTooLarge, \<lambda>_. 0)"
proof -
  have fields: "CSRBatch.num_row (csr_rows n) = n" "num_row (dense_empty n) = n" for n
    by (simp_all add: csr_rows_def dense_empty_def)
  have small: "(2 ^ 63 - 2 :: nat) \<le> int64_max" and large: "int64_max < (2 ^ 63 :: nat)"
    by (simp_all add: int64_max_def)
  have loaded: "(77::nat) \<noteq> 0" by simp
  note A = row_count_check [where b = "csr_rows (2 ^ 63 - 2)" and d = "dense_empty (2 ^ 63 - 2)"
             and omp = omp_static and nthread = 1 and out = "\<lambda>_. 0"
             and func = "scalar_func code3 77 False", unfolded fields]
  note B = row_count_check [where b = "csr_rows (2 ^ 63)" and d = "dense_empty (2 ^ 63)"
             and omp = omp_static and nthread = 1 and out = "\<lambda>_. 0"
             and func = "scalar_func code3 77 False" and h = 77 and max_thread = 1
             and code = code3 and requested = 1 and verbose = 0 and pred_margin = False
             and g = 1 and expected = "2 ^ 63", unfolded fields]
  from A small have a1: "PredLoop_CSR omp_static (csr_rows (2 ^ 63 - 2)) 1 (\<lambda>_. 0)
        (scalar_func code3 77 False) \<noteq> Inl (NumRowTooLarge, \<lambda>_. 0)"
    and a2: "int64_of_size (2 ^ 63 - 2) = int (2 ^ 63 - 2)"
    and a3: "PredLoop_Dense omp_static (dense_empty (2 ^ 63 - 2)) 1 (\<lambda>_. 0)
        (scalar_func code3 77 False) \<noteq> Inl (NumRowTooLarge, \<lambda>_. 0)"
    by blast+
  from B large loaded have b1: "PredictBatch_impl (PredLoop_CSR omp_static (csr_rows (2 ^ 63)))
          (2 ^ 63) 1 code3 1 0 False 1 77 (2 ^ 63) (\<lambda>_. 0) = Inl (NumRowTooLarge, \<lambda>_. 0)"
    and b2: "PredictBatch_impl (PredLoop_Dense omp_static (dense_empty (2 ^ 63))) (2 ^ 63) 1 code3
          1 0 False 1 77 (2 ^ 63) (\<lambda>_. 0) = Inl (NumRowTooLarge, \<lambda>_. 0)"
    by blast+
  from a2 have a2': "int64_of_size (2 ^ 63 - 2) = 2 ^ 63 - 2" by simp
  from a1 a2' a3 b1 b2 show ?thesis by (intro conjI)
qed

text \<open>
  The claim as stated puts the bound one lower: \<open>2 ^ 63 - 1\<close> rows exceed \<open>2 ^ 63 - 2\<close>, yet
  the call on a batch of \<open>2 ^ 63 - 1\<close> empty rows is accepted and returns that count.
\<close>

theorem row_count_check_counterexample:
  "(2 ^ 63 - 1 - 1 :: nat) < 2 ^ 63 - 1
   \<and> map_sum fst snd
       (PredictBatch_impl (PredLoop_CSR omp_static (csr_rows (2 ^ 63 - 1))) (2 ^ 63 - 1) 1 code3
          1 0 False 1 77 (2 ^ 63 - 1) (\<lambda>_. 0))
     = Inr (2 ^ 63 - 1)"
proof -
  have "(2 ^ 63 - 1 :: nat) \<le> int64_max" by (simp add: int64_max_def)
  from csr_rows_accepted [OF this] show ?thesis by simp
qed

section \<open>The thread count\<close>

text \<open>
  C8. A batch call on a loaded predictor is the loop, run with the thread count \<open>C\<close>,
  followed by the reshape step, where \<open>C\<close> is the ceiling when the request is 0 and the smaller
  of request and ceiling otherwise. The loop forms its team and sizes its scratch vector
  with the count it is given, so in the batch call of a CSR or dense batch the runtime is
  asked for a team of \<open>C\<close> threads and the scratch vector has \<open>C * num_col\<close> slots, all
  missing. \<open>C\<close> never exceeds the ceiling.
\<close>

theorem effective_nthread_clamp:
  "PredictBatch_impl PredLoop n max_thread code nthread verbose pred_margin nog h expected out
     = (if h = 0 then Inl (NotLoaded, out)
        else case PredLoop (if nthread = 0 then max_thread else min nthread max_thread) out
                    (if 1 < nog then multiclass_func code h pred_margin nog
                     else scalar_func code h pred_margin) of
               Inl e \<Rightarrow> Inl e
             | Inr (out1, total_size) \<Rightarrow>
                 if expected \<le> total_size then Inr (out1, total_size)
                 else if nog \<le> 1 then Inl (ReshapeGroups, out1)
                 else if n = 0 then Inl (DivisionByZero, out1)
                 else if total_size mod n \<noteq> 0 then Inl (ReshapeNotMultiple, out1)
                 else if total_size div n = 0 then Inl (ReshapeZeroWidth, out1)
                 else if nog \<le> total_size div n then Inl (ReshapeWidthTooLarge, out1)
                 else Inr (reshape n nog (total_size div n) out1, total_size))
   \<and> PredictBatch_CSR omp max_thread code p b nthread verbose pred_margin out
     = (if pred_func_handle p = 0 then Inl (NotLoaded, out)
        else if int64_max < CSRBatch.num_row b then Inl (NumRowTooLarge, out)
        else case fold (csr_row b (if 1 < num_output_group p
                                   then multiclass_func code (pred_func_handle p) pred_margin
                                          (num_output_group p)
                                   else scalar_func code (pred_func_handle p) pred_margin))
                    (omp (if nthread = 0 then max_thread else min nthread max_thread)
                       (nat (int64_of_size (CSRBatch.num_row b))))
                    (replicate
                       (size_wrap (size_of_int (if nthread = 0 then max_thread
                                                else min nthread max_thread)
                                   * CSRBatch.num_col b))
                       (missing (- 1)), out, 0) of
               (inst', out1, total_size) \<Rightarrow>
                 if QueryResultSize p (CSRBatch.num_row b) \<le> total_size
                 then Inr (out1, total_size)
                 else if num_output_group p \<le> 1 then Inl (ReshapeGroups, out1)
                 else if CSRBatch.num_row b = 0 then Inl (DivisionByZero, out1)
                 else if total_size mod CSRBatch.num_row b \<noteq> 0
                   then Inl (ReshapeNotMultiple, out1)
                 else if total_size div CSRBatch.num_row b = 0 then Inl (ReshapeZeroWidth, out1)
                 else if num_output_group p \<le> total_size div CSRBatch.num_row b
                   then Inl (ReshapeWidthTooLarge, out1)
                 else Inr (reshape (CSRBatch.num_row b) (num_output_group p)
                             (total_size div CSRBatch.num_row b) out1, total_size))
   \<and> PredictBatch_Dense omp max_thread code p d nthread verbose pred_margin out
     = (if pred_func_handle p = 0 then Inl (NotLoaded, out)
        else if int64_max < num_row d then Inl (NumRowTooLarge, out)
        else case dense_loop d (if 1 < num_output_group p
                                then multiclass_func code (pred_func_handle p) pred_margin
                                       (num_output_group p)
                                else scalar_func code (pred_func_handle p) pred_margin)
                    (omp (if nthread = 0 then max_thread else min nthread max_thread)
                       (nat (int64_of_size (num_row d))))
                    (replicate
                       (size_wrap (size_of_int (if nthread = 0 then max_thread
                                                else min nthread max_thread)
                                   * num_col d))
                       (missing (- 1)), out, 0) of
               Inl e \<Rightarrow> Inl e
             | Inr (inst', out1, total_size) \<Rightarrow>
                 if QueryResultSize p (num_row d) \<le> total_size then Inr (out1, total_size)
                 else if num_output_group p \<le> 1 then Inl (ReshapeGroups, out1)
                 else if num_row d = 0 then Inl (DivisionByZero, out1)
                 else if total_size mod num_row d \<noteq> 0 then Inl (ReshapeNotMultiple, out1)
                 else if total_size div num_row d = 0 then Inl (ReshapeZeroWidth, out1)
                 else if num_output_group p \<le> total_size div num_row d
                   then Inl (ReshapeWidthTooLarge, out1)
                 else Inr (reshape (num_row d) (num_output_group p)
                             (total_size div num_row d) out1, total_size))
   \<and> (if nthread = 0 then max_thread else min nthread max_thread) \<le> max_thread"
proof -
  let ?C = "if nthread = 0 then max_thread else min nthread max_thread"
  have C: "effective_nthread nthread max_thread = ?C"
    by (simp add: effective_nthread_def)
  have generic: "PredictBatch_impl L m max_thread code nthread verbose pred_margin g k ex out
     = (if k = 0 then Inl (NotLoaded, out)
        else case L ?C out (if 1 < g then multiclass_func code k pred_margin g
                            else scalar_func code k pred_margin) of
               Inl e \<Rightarrow> Inl e
             | Inr (out1, total_size) \<Rightarrow>
                 if ex \<le> total_size then Inr (out1, total_size)
                 else if g \<le> 1 then Inl (ReshapeGroups, out1)
                 else if m = 0 then Inl (DivisionByZero, out1)
                 else if total_size mod m \<noteq> 0 then Inl (ReshapeNotMultiple, out1)
                 else if total_size div m = 0 then Inl (ReshapeZeroWidth, out1)
                 else if g \<le> total_size div m then Inl (ReshapeWidthTooLarge, out1)
                 else Inr (reshape m g (total_size div m) out1, total_size))"
    for L m g k ex
    unfolding PredictBatch_impl_def C
    by (cases "1 < g") (auto split: sum.splits prod.splits)
  have csr: "PredLoop_CSR omp b ?C out f
     = (if int64_max < CSRBatch.num_row b then Inl (NumRowTooLarge, out)
        else case fold (csr_row b f) (omp ?C (nat (int64_of_size (CSRBatch.num_row b))))
                    (replicate (size_wrap (size_of_int ?C * CSRBatch.num_col b)) (missing (- 1)),
                     out, 0) of
               (inst', out1, total_size) \<Rightarrow> Inr (out1, total_size))" for f
    unfolding PredLoop_CSR_def Let_def by (simp add: not_le)
  have dense: "PredLoop_Dense omp d ?C out f
     = (if int64_max < num_row d then Inl (NumRowTooLarge, out)
        else case dense_loop d f (omp ?C (nat (int64_of_size (num_row d))))
                    (replicate (size_wrap (size_of_int ?C * num_col d)) (missing (- 1)),
                     out, 0) of
               Inl e \<Rightarrow> Inl e
             | Inr (inst', out1, total_size) \<Rightarrow> Inr (out1, total_size))" for f
    unfolding PredLoop_Dense_def Let_def by (simp add: not_le)
  have first: "PredictBatch_impl PredLoop n max_thread code nthread verbose pred_margin nog h
                 expected out
     = (if h = 0 then Inl (NotLoaded, out)
        else case PredLoop ?C out
                    (if 1 < nog then multiclass_func code h pred_margin nog
                     else scalar_func code h pred_margin) of
               Inl e \<Rightarrow> Inl e
             | Inr (out1, total_size) \<Rightarrow>
                 if expected \<le> total_size then Inr (out1, total_size)
                 else if nog \<le> 1 then Inl (ReshapeGroups, out1)
                 else if n = 0 then Inl (DivisionByZero, out1)
                 else if total_size mod n \<noteq> 0 then Inl (ReshapeNotMultiple, out1)
                 else if total_size div n = 0 then Inl (ReshapeZeroWidth, out1)
                 else if nog \<le> total_size div n then Inl (ReshapeWidthTooLarge, out1)
                 else Inr (reshape n nog (total_size div n) out1, total_size))"
    by (rule generic)
  have second: "PredictBatch_CSR omp max_thread code p b nthread verbose pred_margin out
     = (if pred_func_handle p = 0 then Inl (NotLoaded, out)
        else if int64_max < CSRBatch.num_row b then Inl (NumRowTooLarge, out)
        else case fold (csr_row b (if 1 < num_output_group p
                                   then multiclass_func code (pred_func_handle p) pred_margin
                                          (num_output_group p)
                                   else scalar_func code (pred_func_handle p) pred_margin))
                    (omp ?C (nat (int64_of_size (CSRBatch.num_row b))))
                    (replicate (size_wrap (size_of_int ?C * CSRBatch.num_col b))
                       (missing (- 1)), out, 0) of
               (inst', out1, total_size) \<Rightarrow>
                 if QueryResultSize p (CSRBatch.num_row b) \<le> total_size
                 then Inr (out1, total_size)
                 else if num_output_group p \<le> 1 then Inl (ReshapeGroups, out1)
                 else if CSRBatch.num_row b = 0 then Inl (DivisionByZero, out1)
                 else if total_size mod CSRBatch.num_row b \<noteq> 0
                   then Inl (ReshapeNotMultiple, out1)
                 else if total_size div CSRBatch.num_row b = 0 then Inl (ReshapeZeroWidth, out1)
                 else if num_output_group p \<le> total_size div CSRBatch.num_row b
                   then Inl (ReshapeWidthTooLarge, out1)
                 else Inr (reshape (CSRBatch.num_row b) (num_output_group p)
                             (total_size div CSRBatch.num_row b) out1, total_size))"
    unfolding PredictBatch_CSR_def generic csr
    by (simp split: prod.splits)
  have third: "PredictBatch_Dense omp max_thread code p d nthread verbose pred_margin out
     = (if pred_func_handle p = 0 then Inl (NotLoaded, out)
        else if int64_max < num_row d then Inl (NumRowTooLarge, out)
        else case dense_loop d (if 1 < num_output_group p
                                then multiclass_func code (pred_func_handle p) pred_margin
                                       (num_output_group p)
                                else scalar_func code (pred_func_handle p) pred_margin)
                    (omp ?C (nat (int64_of_size (num_row d))))
                    (replicate (size_wrap (size_of_int ?C * num_col d))
                       (missing (- 1)), out, 0) of
               Inl e \<Rightarrow> Inl e
             | Inr (inst', out1, total_size) \<Rightarrow>
                 if QueryResultSize p (num_row d) \<le> total_size then Inr (out1, total_size)
                 else if num_output_group p \<le> 1 then Inl (ReshapeGroups, out1)
                 else if num_row d = 0 then Inl (DivisionByZero, out1)
                 else if total_size mod num_row d \<noteq> 0 then Inl (ReshapeNotMultiple, out1)
                 else if total_size div num_row d = 0 then Inl (ReshapeZeroWidth, out1)
                 else if num_output_group p \<le> total_size div num_row d
                   then Inl (ReshapeWidthTooLarge, out1)
                 else Inr (reshape (num_row d) (num_output_group p)
                             (total_size div num_row d) out1, total_size))"
    unfolding PredictBatch_Dense_def generic dense
    by (simp split: prod.splits sum.splits)
  have fourth: "?C \<le> max_thread" by simp
  from first second third fourth show ?thesis by (intro conjI)
qed

text \<open>
  A request of 8 threads under a ceiling of 2, on the CSR batch of two rows and two columns:
  the team has two threads, one row each, the scratch vector has four slots, and the call
  returns the two predictions.
\<close>

theorem effective_nthread_clamp_witness:
  "observe 2
     (PredictBatch_CSR omp_static 2 code3
        \<lparr> lib_handle = 5, query_func_handle = 6, pred_func_handle = 7, num_output_group = 1 \<rparr>
        csr1 8 0 False (\<lambda>_. 0))
   = Inr ([0x3F800000, 0x41100000], 2)
   \<and> omp_static (if (8::int) = 0 then 2 else min 8 2) 2 = [(0, 0), (1, 1)]
   \<and> size_wrap (size_of_int (if (8::int) = 0 then 2 else min 8 2) * CSRBatch.num_col csr1) = 4"
proof -
  let ?p = "\<lparr> lib_handle = 5, query_func_handle = 6, pred_func_handle = 7,
              num_output_group = 1 \<rparr>"
  note T = effective_nthread_clamp
             [where omp = omp_static and max_thread = 2 and code = code3 and p = ?p and b = csr1
                and nthread = 8 and verbose = 0 and pred_margin = False and out = "\<lambda>_. 0",
              THEN conjunct2, THEN conjunct1]
  have run: "observe 2
     (PredictBatch_CSR omp_static 2 code3 ?p csr1 8 0 False (\<lambda>_. 0))
   = Inr ([0x3F800000, 0x41100000], 2)"
    unfolding T
    by (simp add: QueryResultSize_def observe_def omp_static_def scalar_func_def csr_row_def
          csr_fill_def csr_clear_def size_wrap_def size_of_int_def int64_max_def upt_eval
          int64_of_size_id replicate_eval list_update_eval is_missing_marker is_missing_fvalue
          get_fvalue_fvalue csr1_def code3_def)
  have team: "omp_static (if (8::int) = 0 then 2 else min 8 2) 2 = [(0, 0), (1, 1)]"
    by (simp add: omp_static_def upt_eval)
  have scratch: "size_wrap (size_of_int (if (8::int) = 0 then 2 else min 8 2)
                            * CSRBatch.num_col csr1) = 4"
    by (simp add: size_wrap_def size_of_int_def csr1_def)
  from run team scratch show ?thesis by (intro conjI)
qed

section \<open>Independence of the thread count\<close>



section \<open>A total that reaches the expected size\<close>

text \<open>
  C10. When the total returned by the loop is at least the expected size, no reshape check
  is evaluated: whatever the group count and the total are, the call returns the total and the
  output memory exactly as the loop left it.
\<close>

theorem total_at_least_expected_unchecked:
  assumes "h \<noteq> 0"
    and "(if 1 < nog
          then PredLoop (effective_nthread nthread max_thread) out
                 (multiclass_func code h pred_margin nog)
          else PredLoop (effective_nthread nthread max_thread) out
                 (scalar_func code h pred_margin))
         = Inr (out1, total_size)"
    and "expected \<le> total_size"
  shows "PredictBatch_impl PredLoop n max_thread code nthread verbose pred_margin nog h expected out
         = Inr (out1, total_size)"
  using assms by (simp add: PredictBatch_impl_def)

text \<open>
  Two rows, four groups, expected size 8; the unit reports 5 per row, so the total 10 exceeds
  the capacity and is returned as it is.
\<close>

theorem total_at_least_expected_unchecked_witness:
  "observe 10 (PredictBatch_impl (PredLoop_CSR omp_static csr1) 2 2 code1 0 0 False 4 77 8 (\<lambda>_. 0))
     = Inr ([0x3F800000, 9, 9, 9, 7, 9, 9, 9, 0, 0], 10)"
proof -
  let ?run = "PredLoop_CSR omp_static csr1 (effective_nthread 0 2) (\<lambda>_. 0)
                (multiclass_func code1 77 False 4)"
  have h: "(77::nat) \<noteq> 0" by simp
  have run: "(if 1 < (4::nat) then ?run
              else PredLoop_CSR omp_static csr1 (effective_nthread 0 2) (\<lambda>_. 0)
                     (scalar_func code1 77 False))
             = Inr (fst (projr ?run), 10)"
    by (simp add: eval_defs csr1_def code1_def)
  have le: "(8::nat) \<le> 10" by simp
  have obs: "observe 10 (Inr (fst (projr ?run), 10))
             = Inr ([0x3F800000, 9, 9, 9, 7, 9, 9, 9, 0, 0], 10)"
    by (simp add: eval_defs csr1_def code1_def)
  show ?thesis
    unfolding total_at_least_expected_unchecked
      [where PredLoop = "PredLoop_CSR omp_static csr1" and nthread = 0 and max_thread = 2
         and out = "\<lambda>_. 0" and code = code1 and h = 77 and pred_margin = False and nog = 4
         and expected = 8, OF h run le]
    by (rule obs)
qed

end
